theory Spec2Isabelle
  imports Complex_Main "HOL-Library.AList"
begin

section \<open>The CROWler ruleset schema\<close>

text \<open>
  Every converter declares its own copy of the ruleset structs. The copies agree on the
  fields they share and differ only in which optional fields they declare (the favicon
  converter adds \<open>MD5Hash\<close> to the page-content signature; the ModSecurity converter
  declares only the header-field list). The records below are the union of the copies; a
  field that a converter does not declare is empty in every rule it builds, which is also
  how an empty field is written to YAML (\<open>omitempty\<close>). A Go string is a byte sequence,
  here a \<open>string\<close>; a slice is a list, \<open>nil\<close> being the empty list; a \<open>float32\<close>
  confidence is a real number (the only value ever stored is the literal 10).
\<close>

type_synonym float32 = real

record HTTPHeaderField =
  hdr_Key :: string
  hdr_Value :: "string list"
  hdr_Confidence :: int

record SSLSignature =
  ssl_Key :: string
  ssl_Value :: "string list"
  ssl_Confidence :: float32

record MetaTag =
  meta_Name :: string
  meta_Content :: "string list"
  meta_Confidence :: int

record PageContentSignature =
  pc_Key :: string
  pc_Attribute :: string
  pc_Signature :: "string list"
  pc_Text :: "string list"
  pc_MD5Hash :: "string list"
  pc_Confidence :: float32

record URLMicroSignature =
  url_Signature :: string
  url_Confidence :: float32

record DetectionRule =
  RuleName :: string
  ObjectName :: string
  Implies :: "string list"
  HTTPHeaderFields :: "HTTPHeaderField list"
  MetaTags :: "MetaTag list"
  PageContentPatterns :: "PageContentSignature list"
  SSLSignatures :: "SSLSignature list"
  URLPatterns :: "URLMicroSignature list"

record RuleGroup =
  GroupName :: string
  IsEnabled :: bool
  DetectionRules :: "DetectionRule list"

record Ruleset =
  RulesetName :: string
  FormatVersion :: string
  Author :: string
  CreatedAt :: string
  Description :: string
  RuleGroups :: "RuleGroup list"

section \<open>Strings\<close>

text \<open>
  \<open>strings.ReplaceAll\<close> is only ever called with a one-byte pattern and a one-byte
  replacement, both ASCII, so it acts byte by byte. \<open>strings.ToLower\<close> is modelled on
  ASCII: the letters A to Z are mapped to a to z and every other byte is kept. This is
  what Go computes for a string all of whose bytes are below 128. For other strings Go
  also lowers the letters outside ASCII and replaces a byte that is not valid UTF-8 by
  the encoding of U+FFFD, which the model does not do: there the model and the code can
  differ in the rule name, and in nothing else, since the name of a rule is the only
  place where \<open>ToLower\<close> is used.
\<close>

definition ReplaceAll :: "string \<Rightarrow> char \<Rightarrow> char \<Rightarrow> string" where
  "ReplaceAll s old new = map (\<lambda>c. if c = old then new else c) s"

definition lower_char :: "char \<Rightarrow> char" where
  "lower_char c =
     (case map_of (zip ''ABCDEFGHIJKLMNOPQRSTUVWXYZ'' ''abcdefghijklmnopqrstuvwxyz'') c of
        Some l \<Rightarrow> l
      | None \<Rightarrow> c)"

definition ToLower :: "string \<Rightarrow> string" where
  "ToLower s = map lower_char s"

definition HasPrefix :: "string \<Rightarrow> string \<Rightarrow> bool" where
  "HasPrefix s p = (take (length p) s = p)"

definition rule_name :: "string \<Rightarrow> string" where
  \<comment> \<open>\<open>fmt.Sprintf("detect_%s", strings.ToLower(strings.ReplaceAll(name, " ", "_")))\<close>\<close>
  "rule_name name = ''detect_'' @ ToLower (ReplaceAll name (CHR '' '') (CHR ''_''))"

section \<open>The technologies.json converters\<close>

text \<open>
  A value decoded by \<open>encoding/json\<close> into an \<open>interface{}\<close> is \<open>nil\<close>, a bool, a
  float64, a string, a \<open>[]interface{}\<close> or a \<open>map[string]interface{}\<close>; the type
  switch of \<open>createRule\<close> also has a case for \<open>map[string]string\<close>. A Go map is
  an association list whose order is the order in which \<open>range\<close> happens to visit
  the entries; its keys are distinct. The input of a JSON converter is the decoded
  document: an error of reading or decoding stops the run before any rule is built.
\<close>

datatype iface =
    GoNil
  | GoBool bool
  | GoFloat64 real
  | GoString string
  | GoSlice "iface list"
  | GoMap "(string \<times> iface) list"
  | GoMapString "(string \<times> string) list"

record Technology =
  Cats :: "string list"
  Cookies :: "(string \<times> string) list"
  Headers :: "(string \<times> string) list"
  Meta :: iface
  Html :: "string list"
  Scripts :: "string list"
  URL :: "string list"
  Website :: string
  tech_Implies :: "string list"

definition header_field :: "string \<times> string \<Rightarrow> HTTPHeaderField" where
  "header_field kv = \<lparr>hdr_Key = fst kv, hdr_Value = [snd kv], hdr_Confidence = 10\<rparr>"

fun item_strings :: "iface list \<Rightarrow> string list" where
  "item_strings [] = []"
| "item_strings (GoString str # items) = str # item_strings items"
| "item_strings (_ # items) = item_strings items"

fun meta_entry :: "string \<times> iface \<Rightarrow> MetaTag list" where
  "meta_entry (k, GoString val) = [\<lparr>meta_Name = k, meta_Content = [val], meta_Confidence = 10\<rparr>]"
| "meta_entry (k, GoSlice val) =
     [\<lparr>meta_Name = k, meta_Content = item_strings val, meta_Confidence = 10\<rparr>]"
| "meta_entry (k, _) = []"

fun meta_tags :: "iface \<Rightarrow> MetaTag list" where
  "meta_tags (GoMap meta) = concat (map meta_entry meta)"
| "meta_tags (GoMapString meta) =
     map (\<lambda>kv. \<lparr>meta_Name = fst kv, meta_Content = [snd kv], meta_Confidence = 10\<rparr>) meta"
| "meta_tags _ = []"

definition content_sig :: "string \<Rightarrow> string \<Rightarrow> PageContentSignature" where
  "content_sig key v =
     \<lparr>pc_Key = key, pc_Attribute = [], pc_Signature = [v], pc_Text = [], pc_MD5Hash = [],
      pc_Confidence = 10\<rparr>"

definition attr_sig :: "string \<Rightarrow> string \<Rightarrow> string \<Rightarrow> PageContentSignature" where
  "attr_sig key attr v =
     \<lparr>pc_Key = key, pc_Attribute = attr, pc_Signature = [v], pc_Text = [], pc_MD5Hash = [],
      pc_Confidence = 10\<rparr>"

definition url_sig :: "string \<Rightarrow> URLMicroSignature" where
  "url_sig v = \<lparr>url_Signature = v, url_Confidence = 10\<rparr>"

text \<open>\<open>createRule\<close> of \<open>cmd/convertTechJSON/main.go\<close> (static category table).\<close>

definition createRule :: "string \<Rightarrow> Technology \<Rightarrow> DetectionRule" where
  "createRule name details =
     \<lparr>RuleName = rule_name name,
      ObjectName = name,
      Implies = tech_Implies details,
      HTTPHeaderFields = map header_field (Headers details) @ map header_field (Cookies details),
      MetaTags = meta_tags (Meta details),
      PageContentPatterns =
        map (content_sig ''html'') (Html details) @ map (content_sig ''script'') (Scripts details)
        @ (if Website details \<noteq> [] then [attr_sig ''a'' ''href'' (Website details)] else []),
      SSLSignatures = [],
      URLPatterns =
        map url_sig (URL details)
        @ (if Website details \<noteq> [] then [url_sig (Website details)] else [])\<rparr>"

text \<open>\<open>createRule\<close> of the converter that reads the categories from the input.\<close>

definition createRule_cats :: "string \<Rightarrow> Technology \<Rightarrow> DetectionRule" where
  "createRule_cats name details =
     \<lparr>RuleName = rule_name name,
      ObjectName = name,
      Implies = tech_Implies details,
      HTTPHeaderFields = map header_field (Headers details) @ map header_field (Cookies details),
      MetaTags = meta_tags (Meta details),
      PageContentPatterns =
        map (content_sig ''html'') (Html details) @ map (content_sig ''script'') (Scripts details)
        @ (if Website details \<noteq> []
           then [attr_sig ''a'' ''href'' (Website details),
                 attr_sig ''link'' ''href'' (Website details),
                 attr_sig ''script'' ''src'' (Website details)]
           else []),
      SSLSignatures = [],
      URLPatterns =
        map url_sig (URL details)
        @ (if Website details \<noteq> [] then [url_sig (Website details)] else [])\<rparr>"


subsection \<open>Category buckets\<close>

text \<open>
  The bucketing loop keeps a \<open>map[string]Ruleset\<close>; it is an association list here, a
  new category being added at the end. Every ruleset is created with the time of its
  creation: \<open>clock n\<close> is what \<open>time.Now().Format(time.RFC3339)\<close> returns at the
  creation of the ruleset number \<open>n\<close> of the run. Indexing \<open>RuleGroups[0]\<close> of a
  ruleset without groups is a run-time panic.
\<close>

datatype go_panic = IndexOutOfRange

type_synonym rulesets = "(string \<times> Ruleset) list"

definition append_rule :: "DetectionRule \<Rightarrow> Ruleset \<Rightarrow> go_panic + Ruleset" where
  \<comment> \<open>\<open>ruleset.RuleGroups[0].DetectionRules = append(ruleset.RuleGroups[0].DetectionRules, rule)\<close>\<close>
  "append_rule rule ruleset =
     (case RuleGroups ruleset of
        [] \<Rightarrow> Inl IndexOutOfRange
      | g # gs \<Rightarrow>
          Inr (ruleset\<lparr>RuleGroups := g\<lparr>DetectionRules := DetectionRules g @ [rule]\<rparr> # gs\<rparr>))"

definition bucket_append ::
  "Ruleset \<Rightarrow> DetectionRule \<Rightarrow> string \<Rightarrow> rulesets \<Rightarrow> go_panic + rulesets" where
  \<comment> \<open>The body shared by the three bucketing loops: create the ruleset \<open>fresh\<close> when the
      category has none, read the ruleset of the category (the zero ruleset when the key
      is missing), append the rule to its first group, store it back.\<close>
  "bucket_append fresh rule category rs =
     (let rs1 = (case map_of rs category of None \<Rightarrow> rs @ [(category, fresh)] | Some _ \<Rightarrow> rs)
      in case map_of rs1 category of
           None \<Rightarrow> Inl IndexOutOfRange
         | Some ruleset \<Rightarrow>
             (case append_rule rule ruleset of
                Inl e \<Rightarrow> Inl e
              | Inr ruleset' \<Rightarrow> Inr (AList.update category ruleset' rs1)))"

definition categoryMappings :: "(string \<times> string) list" where
  "categoryMappings =
     [(''1'', ''cms''), (''3'', ''web_frameworks''), (''4'', ''documentation''),
      (''5'', ''widgets''), (''6'', ''ecommerce''), (''8'', ''miscellaneous''),
      (''9'', ''payment_processors''), (''10'', ''analytics''),
      (''11'', ''blogging_platforms''), (''12'', ''javascript_frameworks''),
      (''13'', ''advertising''), (''14'', ''video_players''), (''15'', ''captchas''),
      (''16'', ''security''), (''17'', ''databases''), (''18'', ''web_frameworks''),
      (''19'', ''javascript_libraries''), (''20'', ''editors''),
      (''21'', ''learning_management_systems''), (''22'', ''web_servers''),
      (''23'', ''search_engines''), (''24'', ''development''), (''25'', ''augmented_reality''),
      (''26'', ''file_sharing''), (''27'', ''rich_media''), (''28'', ''operating_systems''),
      (''29'', ''search_engines''), (''30'', ''load_balancers''), (''31'', ''cdns''),
      (''32'', ''marketing_automation''), (''33'', ''crm''), (''34'', ''tag_managers''),
      (''35'', ''translation_tools''), (''36'', ''advertising_networks''),
      (''41'', ''payment_processors''), (''42'', ''tag_managers''),
      (''44'', ''personalization''), (''46'', ''dmps''), (''47'', ''cloud_platforms''),
      (''48'', ''testing_tools''), (''49'', ''static_site_generators''),
      (''50'', ''feedback_and_surveys''), (''51'', ''portfolio_builders''),
      (''52'', ''live_chat''), (''53'', ''document_management_systems''), (''54'', ''seo''),
      (''55'', ''accounting''), (''56'', ''ssl_certificates''),
      (''57'', ''container_platforms''), (''58'', ''voice_platforms''),
      (''59'', ''animation_libraries''), (''60'', ''calendar''), (''62'', ''cloud_platforms''),
      (''63'', ''storage''), (''64'', ''dns''), (''65'', ''audio_libraries''),
      (''66'', ''performance''), (''67'', ''consent_management''), (''68'', ''accessibility''),
      (''69'', ''identity_management''), (''70'', ''certificates''),
      (''71'', ''affiliate_programs''), (''72'', ''scheduling''), (''73'', ''page_builders''),
      (''74'', ''a_b_testing''), (''75'', ''email_marketing''), (''76'', ''personalization''),
      (''77'', ''dmps''), (''78'', ''performance''), (''79'', ''anti_tracking''),
      (''80'', ''themes''), (''83'', ''cryptominers''),
      (''84'', ''data_management_platforms''), (''85'', ''media_servers''),
      (''86'', ''customer_data_platforms''), (''87'', ''wordpress_plugins''),
      (''88'', ''web_hosting''), (''89'', ''learning_management_systems''),
      (''90'', ''reviews''), (''91'', ''buy_now_pay_later''),
      (''92'', ''page_speed_optimizers''), (''93'', ''business_intelligence''),
      (''94'', ''referrals''), (''95'', ''digital_asset_management''), (''96'', ''webmail''),
      (''97'', ''customer_data_platforms''), (''98'', ''container_management''),
      (''99'', ''performance_monitoring''), (''100'', ''form_builders''),
      (''101'', ''documentation''), (''102'', ''return_management''),
      (''103'', ''cobrowsing''), (''104'', ''website_builders''),
      (''105'', ''augmented_reality''), (''106'', ''content_delivery_networks''),
      (''107'', ''order_management''), (''108'', ''anti_fraud''),
      (''109'', ''marketing_intelligence''), (''110'', ''form_builders''),
      (''111'', ''donation_management'')]"

definition new_ruleset :: "string \<Rightarrow> string \<Rightarrow> Ruleset" where
  "new_ruleset category now =
     \<lparr>RulesetName = ''detect_'' @ category @ ''_ruleset'',
      FormatVersion = ''1.0.4'',
      Author = ''Your Name'',
      CreatedAt = now,
      Description =
        ''Ruleset to detect '' @ ReplaceAll category (CHR ''_'') (CHR '' '') @ '' technologies.'',
      RuleGroups =
        [\<lparr>GroupName = ''detect_web_technologies_'' @ category, IsEnabled = True,
          DetectionRules = []\<rparr>]\<rparr>"

fun bucket_cats ::
  "(nat \<Rightarrow> string) \<Rightarrow> DetectionRule \<Rightarrow> string list \<Rightarrow> rulesets \<Rightarrow> go_panic + rulesets" where
  "bucket_cats clock rule [] rs = Inr rs"
| "bucket_cats clock rule (cat # cats) rs =
     (case map_of categoryMappings cat of
        None \<Rightarrow> bucket_cats clock rule cats rs
      | Some category \<Rightarrow>
          (case bucket_append (new_ruleset category (clock (length rs))) rule category rs of
             Inl e \<Rightarrow> Inl e
           | Inr rs' \<Rightarrow> bucket_cats clock rule cats rs'))"

fun process_technologies ::
  "(nat \<Rightarrow> string) \<Rightarrow> (string \<times> Technology) list \<Rightarrow> rulesets \<Rightarrow> go_panic + rulesets" where
  "process_technologies clock [] rs = Inr rs"
| "process_technologies clock ((name, details) # technologies) rs =
     (case bucket_cats clock (createRule name details) (Cats details) rs of
        Inl e \<Rightarrow> Inl e
      | Inr rs' \<Rightarrow> process_technologies clock technologies rs')"

definition main_rulesets ::
  "(nat \<Rightarrow> string) \<Rightarrow> (string \<times> Technology) list \<Rightarrow> go_panic + rulesets" where
  "main_rulesets clock technologies = process_technologies clock technologies []"

text \<open>The same loop in the converter that takes the categories from the input.\<close>

record Category =
  cat_Name :: string

definition new_ruleset_cats :: "string \<Rightarrow> string \<Rightarrow> Ruleset" where
  "new_ruleset_cats category now =
     \<lparr>RulesetName = ''detect_'' @ ReplaceAll category (CHR '' '') (CHR ''_'') @ ''_ruleset'',
      FormatVersion = ''1.0.4'',
      Author = ''Your Name'',
      CreatedAt = now,
      Description =
        ''Ruleset to detect '' @ ReplaceAll category (CHR ''_'') (CHR '' '') @ '' technologies.'',
      RuleGroups =
        [\<lparr>GroupName = ''detect_web_technologies_'' @ category, IsEnabled = True,
          DetectionRules = []\<rparr>]\<rparr>"

fun bucket_cats_cats ::
  "(string \<times> Category) list \<Rightarrow> (nat \<Rightarrow> string) \<Rightarrow> DetectionRule \<Rightarrow> string list \<Rightarrow> rulesets
   \<Rightarrow> go_panic + rulesets" where
  "bucket_cats_cats categories clock rule [] rs = Inr rs"
| "bucket_cats_cats categories clock rule (cat # cats) rs =
     (case map_of categories cat of
        None \<Rightarrow> bucket_cats_cats categories clock rule cats rs
      | Some category \<Rightarrow>
          (case bucket_append (new_ruleset_cats (cat_Name category) (clock (length rs))) rule
                  (cat_Name category) rs of
             Inl e \<Rightarrow> Inl e
           | Inr rs' \<Rightarrow> bucket_cats_cats categories clock rule cats rs'))"

fun process_technologies_cats ::
  "(string \<times> Category) list \<Rightarrow> (nat \<Rightarrow> string) \<Rightarrow> (string \<times> Technology) list \<Rightarrow> rulesets
   \<Rightarrow> go_panic + rulesets" where
  "process_technologies_cats categories clock [] rs = Inr rs"
| "process_technologies_cats categories clock ((name, details) # technologies) rs =
     (case bucket_cats_cats categories clock (createRule_cats name details) (Cats details) rs of
        Inl e \<Rightarrow> Inl e
      | Inr rs' \<Rightarrow> process_technologies_cats categories clock technologies rs')"

definition main_rulesets_cats ::
  "(string \<times> Category) list \<Rightarrow> (nat \<Rightarrow> string) \<Rightarrow> (string \<times> Technology) list
   \<Rightarrow> go_panic + rulesets" where
  "main_rulesets_cats categories clock technologies =
     process_technologies_cats categories clock technologies []"

subsection \<open>Output file names\<close>

text \<open>
  The file name is \<open>fmt.Sprintf((*outPath)+"/detect-%s-ruleset.yaml", category)\<close>: the
  output directory is part of the format string, so a \<open>%\<close> in it starts a verb.
  \<open>Sprintf_s\<close> is \<open>fmt.Sprintf\<close> with one string operand; its second argument is
  the operand while no verb has consumed it. The verbs \<open>%s\<close> and \<open>%v\<close> write the
  operand, \<open>%T\<close> writes its type, \<open>%%\<close> writes a percent sign, and any other
  ASCII verb is a bad verb for a string and writes \<open>%!d(string=...)\<close>; a verb that
  finds no operand writes \<open>%!s(MISSING)\<close>, a \<open>%\<close> that ends the format writes
  \<open>%!(NOVERB)\<close>, and an operand that no verb has consumed is reported at the end. The
  result is \<open>None\<close>, outside the model, when a \<open>%\<close> is followed by a flag, a width,
  a precision or an operand index, by one of the verbs \<open>q\<close>, \<open>x\<close>, \<open>X\<close>,
  \<open>w\<close>, or by a byte above 127.
\<close>

definition unmodelled_verb :: "char \<Rightarrow> bool" where
  "unmodelled_verb d = (d \<in> set ''#0+- 123456789.[*qxXw'' \<or> 128 \<le> (of_char d :: nat))"

definition verb_output :: "char \<Rightarrow> string option \<Rightarrow> string" where
  \<comment> \<open>what a modelled verb writes, for the operand or for none\<close>
  "verb_output d arg =
     (case arg of
        None \<Rightarrow> ''%!'' @ [d] @ ''(MISSING)''
      | Some a \<Rightarrow>
          if d = CHR ''s'' \<or> d = CHR ''v'' then a
          else if d = CHR ''T'' then ''string''
          else ''%!'' @ [d] @ ''(string='' @ a @ '')'')"

fun Sprintf_s :: "string \<Rightarrow> string option \<Rightarrow> string option" where
  "Sprintf_s [] arg =
     (case arg of None \<Rightarrow> Some [] | Some a \<Rightarrow> Some (''%!(EXTRA string='' @ a @ '')''))"
| "Sprintf_s [c] arg =
     (if c = CHR ''%'' then map_option ((@) ''%!(NOVERB)'') (Sprintf_s [] arg)
      else map_option ((#) c) (Sprintf_s [] arg))"
| "Sprintf_s (c # d # fmt) arg =
     (if c \<noteq> CHR ''%'' then map_option ((#) c) (Sprintf_s (d # fmt) arg)
      else if d = CHR ''%'' then map_option ((#) (CHR ''%'')) (Sprintf_s fmt arg)
      else if unmodelled_verb d then None
      else map_option ((@) (verb_output d arg)) (Sprintf_s fmt None))"

definition output_filename :: "string \<Rightarrow> string \<Rightarrow> string option" where
  \<comment> \<open>the converters with a static category table\<close>
  "output_filename outPath category =
     Sprintf_s (outPath @ ''/detect-%s-ruleset.yaml'') (Some category)"

definition output_filename_cats :: "string \<Rightarrow> string \<Rightarrow> string option" where
  \<comment> \<open>the converter that takes the categories from the input\<close>
  "output_filename_cats outPath category =
     (let category1 = ReplaceAll category (CHR '' '') (CHR ''-'');
          category2 = ReplaceAll category1 (CHR ''/'') (CHR ''-'');
          category3 = ReplaceAll category2 (CHR 0x5C) (CHR ''-'')
      in Sprintf_s (outPath @ ''/detect-%s-ruleset.yaml'') (Some category3))"

text \<open>
  One file is written for each entry of the map, in the order in which \<open>range\<close>
  visits it; the BuiltWith converter builds its file names as the converter with the
  static table does.
\<close>

definition main_files :: "string \<Rightarrow> rulesets \<Rightarrow> (string option \<times> Ruleset) list" where
  "main_files outPath rs = map (\<lambda>(category, ruleset). (output_filename outPath category, ruleset)) rs"

definition main_files_cats :: "string \<Rightarrow> rulesets \<Rightarrow> (string option \<times> Ruleset) list" where
  "main_files_cats outPath rs =
     map (\<lambda>(category, ruleset). (output_filename_cats outPath category, ruleset)) rs"

section \<open>The BuiltWith converter\<close>

record BuiltWithPatterns =
  bw_URL :: string
  bw_HTML :: string
  bw_Headers :: "(string \<times> string) list"

record BuiltWithTechnology =
  Categories :: "int list"
  Patterns :: BuiltWithPatterns
  bw_Implies :: "string list"

definition categoryMappings_bw :: "(int \<times> string) list" where
  "categoryMappings_bw = [(1, ''cms''), (2, ''web_frameworks'')]"

definition createRule_bw :: "string \<Rightarrow> BuiltWithTechnology \<Rightarrow> DetectionRule" where
  "createRule_bw name details =
     \<lparr>RuleName = rule_name name,
      ObjectName = name,
      Implies = bw_Implies details,
      HTTPHeaderFields = map header_field (bw_Headers (Patterns details)),
      MetaTags = [],
      PageContentPatterns =
        (if bw_HTML (Patterns details) \<noteq> []
         then [\<lparr>pc_Key = ''body'', pc_Attribute = [], pc_Signature = [],
                pc_Text = [bw_HTML (Patterns details)], pc_MD5Hash = [], pc_Confidence = 10\<rparr>]
         else []),
      SSLSignatures = [],
      URLPatterns =
        (if bw_URL (Patterns details) \<noteq> [] then [url_sig (bw_URL (Patterns details))] else [])\<rparr>"

definition new_ruleset_bw :: "string \<Rightarrow> string \<Rightarrow> Ruleset" where
  "new_ruleset_bw category now =
     \<lparr>RulesetName = ''detect_'' @ category @ ''_ruleset'',
      FormatVersion = ''1.0.4'',
      Author = ''Your Name'',
      CreatedAt = now,
      Description =
        ''Ruleset to detect '' @ ReplaceAll category (CHR ''_'') (CHR '' '') @ '' technologies.'',
      RuleGroups =
        [\<lparr>GroupName = ''detect_web_technologies'', IsEnabled = True, DetectionRules = []\<rparr>]\<rparr>"

fun bucket_cats_bw ::
  "(nat \<Rightarrow> string) \<Rightarrow> DetectionRule \<Rightarrow> int list \<Rightarrow> rulesets \<Rightarrow> go_panic + rulesets" where
  "bucket_cats_bw clock rule [] rs = Inr rs"
| "bucket_cats_bw clock rule (cat # cats) rs =
     (case map_of categoryMappings_bw cat of
        None \<Rightarrow> bucket_cats_bw clock rule cats rs
      | Some category \<Rightarrow>
          (case bucket_append (new_ruleset_bw category (clock (length rs))) rule category rs of
             Inl e \<Rightarrow> Inl e
           | Inr rs' \<Rightarrow> bucket_cats_bw clock rule cats rs'))"

fun process_technologies_bw ::
  "(nat \<Rightarrow> string) \<Rightarrow> (string \<times> BuiltWithTechnology) list \<Rightarrow> rulesets \<Rightarrow> go_panic + rulesets" where
  "process_technologies_bw clock [] rs = Inr rs"
| "process_technologies_bw clock ((name, details) # technologies) rs =
     (case bucket_cats_bw clock (createRule_bw name details) (Categories details) rs of
        Inl e \<Rightarrow> Inl e
      | Inr rs' \<Rightarrow> process_technologies_bw clock technologies rs')"

definition main_rulesets_bw ::
  "(nat \<Rightarrow> string) \<Rightarrow> (string \<times> BuiltWithTechnology) list \<Rightarrow> go_panic + rulesets" where
  "main_rulesets_bw clock technologies = process_technologies_bw clock technologies []"


section \<open>The favicon converter\<close>

text \<open>
  The input of the two line-oriented converters is the list of lines that the
  \<open>bufio.Scanner\<close> delivers (without their line terminators); an error of the scanner
  stops the run after the loop, before anything is written.

  Each line is decoded by a \<open>csv.Reader\<close> of its own. \<open>csv_Read\<close> models
  \<open>Reader.Read\<close> of \<open>encoding/csv\<close> on a one-line input with the settings of the
  converter (comma separator, no comment character, strict quotes, leading space kept):
  a carriage return that ends the input is dropped, an input that is empty then has no
  record, a field that starts with a double quote runs to the closing quote (two quotes
  inside stand for one) and must be followed by a comma or the end, and a quote anywhere
  in a field that does not start with one is an error. \<open>None\<close> is any returned error.
\<close>

datatype csv_state = FieldStart | Bare | Quoted | QuoteSeen

fun csv_scan :: "csv_state \<Rightarrow> string \<Rightarrow> string \<Rightarrow> string list option" where
  "csv_scan FieldStart cur [] = Some [cur]"
| "csv_scan Bare cur [] = Some [cur]"
| "csv_scan Quoted cur [] = None"
| "csv_scan QuoteSeen cur [] = Some [cur]"
| "csv_scan FieldStart cur (c # cs) =
     (if c = CHR 0x22 then csv_scan Quoted [] cs
      else if c = CHR '','' then map_option ((#) []) (csv_scan FieldStart [] cs)
      else csv_scan Bare [c] cs)"
| "csv_scan Bare cur (c # cs) =
     (if c = CHR '','' then map_option ((#) cur) (csv_scan FieldStart [] cs)
      else if c = CHR 0x22 then None
      else csv_scan Bare (cur @ [c]) cs)"
| "csv_scan Quoted cur (c # cs) =
     (if c = CHR 0x22 then csv_scan QuoteSeen cur cs else csv_scan Quoted (cur @ [c]) cs)"
| "csv_scan QuoteSeen cur (c # cs) =
     (if c = CHR 0x22 then csv_scan Quoted (cur @ [CHR 0x22]) cs
      else if c = CHR '','' then map_option ((#) cur) (csv_scan FieldStart [] cs)
      else None)"

definition csv_Read :: "string \<Rightarrow> string list option" where
  "csv_Read line =
     (let l = (if line \<noteq> [] \<and> last line = CHR 0x0D then butlast line else line)
      in if l = [] then None else csv_scan FieldStart [] l)"

definition Trim :: "string \<Rightarrow> char \<Rightarrow> string" where
  \<comment> \<open>\<open>strings.Trim\<close> with a cutset of one byte\<close>
  "Trim s q = rev (dropWhile (\<lambda>c. c = q) (rev (dropWhile (\<lambda>c. c = q) s)))"

definition createFaviconRule :: "string \<Rightarrow> string \<Rightarrow> string \<Rightarrow> DetectionRule" where
  "createFaviconRule ident md5hash description =
     \<lparr>RuleName = rule_name description,
      ObjectName = description,
      Implies = [],
      HTTPHeaderFields = [],
      MetaTags = [],
      PageContentPatterns =
        [\<lparr>pc_Key = [], pc_Attribute = [], pc_Signature = [], pc_Text = [],
          pc_MD5Hash = [md5hash], pc_Confidence = 10\<rparr>],
      SSLSignatures = [],
      URLPatterns = []\<rparr>"

fun favicon_scan :: "string list \<Rightarrow> DetectionRule list \<Rightarrow> DetectionRule list" where
  "favicon_scan [] rules = rules"
| "favicon_scan (line # lines) rules =
     (if HasPrefix line ''#'' \<or> length line = 0 then favicon_scan lines rules
      else
        (case csv_Read line of
           None \<Rightarrow> favicon_scan lines rules
         | Some flds \<Rightarrow>
             if length flds \<noteq> 3 then favicon_scan lines rules
             else
               (let ident = Trim (flds ! 0) (CHR 0x22);
                    md5hash = Trim (flds ! 1) (CHR 0x22);
                    description = Trim (flds ! 2) (CHR 0x22)
                in favicon_scan lines (rules @ [createFaviconRule ident md5hash description]))))"

definition favicon_main :: "string \<Rightarrow> string list \<Rightarrow> Ruleset" where
  \<comment> \<open>the ruleset that \<open>main\<close> encodes; \<open>now\<close> is the formatted time of the run\<close>
  "favicon_main now lines =
     \<lparr>RulesetName = ''detect_favicon_hashes'',
      FormatVersion = ''1.0.4'',
      Author = ''Your Name'',
      CreatedAt = now,
      Description = ''Ruleset to detect technologies using favicon MD5 hashes.'',
      RuleGroups =
        [\<lparr>GroupName = ''detect_favicon_technologies'', IsEnabled = True,
          DetectionRules = (case lines of [] \<Rightarrow> [] | header # rows \<Rightarrow> favicon_scan rows [])\<rparr>]\<rparr>"

section \<open>The ModSecurity converter\<close>

text \<open>
  The regular expressions of \<open>parseModSecurityRule\<close> are a literal followed by one
  capture group. \<open>FindStringSubmatch\<close> returns the leftmost match, and a greedy group
  that is a run of one class of characters takes the whole run. \<open>first_match m s\<close>
  tries the matcher \<open>m\<close> at every position of \<open>s\<close> from the left; the matchers
  return the text of the group. The classes \<open>\d\<close> and \<open>\w\<close> and the boundary
  \<open>\b\<close> are ASCII.
\<close>

fun first_match :: "(string \<Rightarrow> 'a option) \<Rightarrow> string \<Rightarrow> 'a option" where
  "first_match m [] = m []"
| "first_match m (c # cs) = (case m (c # cs) of Some r \<Rightarrow> Some r | None \<Rightarrow> first_match m cs)"

definition strip_prefix :: "string \<Rightarrow> string \<Rightarrow> string option" where
  "strip_prefix p s = (if HasPrefix s p then Some (drop (length p) s) else None)"

definition is_digit :: "char \<Rightarrow> bool" where
  "is_digit c = (c \<in> set ''0123456789'')"

definition is_word :: "char \<Rightarrow> bool" where
  "is_word c =
     (c \<in> set ''0123456789ABCDEFGHIJKLMNOPQRSTUVWXYZ_abcdefghijklmnopqrstuvwxyz'')"

definition digits_at :: "string \<Rightarrow> string \<Rightarrow> string option" where
  \<comment> \<open>\<open>lit(\d+)\<close> at the start of \<open>s\<close>\<close>
  "digits_at lit s =
     (case strip_prefix lit s of
        None \<Rightarrow> None
      | Some r \<Rightarrow> (let v = takeWhile is_digit r in if v \<noteq> [] then Some v else None))"

definition quoted_at :: "string \<Rightarrow> char \<Rightarrow> string \<Rightarrow> string option" where
  \<comment> \<open>\<open>lit([^q]+)q\<close> at the start of \<open>s\<close>\<close>
  "quoted_at lit q s =
     (case strip_prefix lit s of
        None \<Rightarrow> None
      | Some r \<Rightarrow>
          (let v = takeWhile (\<lambda>c. c \<noteq> q) r
           in if v \<noteq> [] \<and> drop (length v) r \<noteq> [] then Some v else None))"

definition userAgentRe :: "string \<Rightarrow> string option" where
  \<comment> \<open>\<open>REQUEST_HEADERS:User-Agent "([^"]+)"\<close>\<close>
  "userAgentRe line =
     first_match (quoted_at (''REQUEST_HEADERS:User-Agent '' @ [CHR 0x22]) (CHR 0x22)) line"

definition idRe :: "string \<Rightarrow> string option" where
  "idRe line = first_match (digits_at ''id:'') line"

definition phaseRe :: "string \<Rightarrow> string option" where
  "phaseRe line = first_match (digits_at ''phase:'') line"

definition statusRe :: "string \<Rightarrow> string option" where
  "statusRe line = first_match (digits_at ''status:'') line"

definition msgRe :: "string \<Rightarrow> string option" where
  \<comment> \<open>\<open>msg:'([^']+)'\<close>\<close>
  "msgRe line = first_match (quoted_at (''msg:'' @ [CHR 0x27]) (CHR 0x27)) line"

definition action_at :: "string \<Rightarrow> string option" where
  \<comment> \<open>\<open>(deny|allow|log)\b\<close> at the start of \<open>s\<close>\<close>
  "action_at s =
     (case filter (\<lambda>w. HasPrefix s w \<and> (case drop (length w) s of [] \<Rightarrow> True | d # _ \<Rightarrow> \<not> is_word d))
             [''deny'', ''allow'', ''log''] of
        [] \<Rightarrow> None
      | w # _ \<Rightarrow> Some w)"

fun action_from :: "bool \<Rightarrow> string \<Rightarrow> string option" where
  \<comment> \<open>the first argument tells whether the previous character is a word character\<close>
  "action_from prev [] = None"
| "action_from prev (c # cs) =
     (if prev then action_from (is_word c) cs
      else (case action_at (c # cs) of Some w \<Rightarrow> Some w | None \<Rightarrow> action_from (is_word c) cs))"

definition actionRe :: "string \<Rightarrow> string option" where
  \<comment> \<open>\<open>\b(deny|allow|log)\b\<close>\<close>
  "actionRe line = action_from False line"

record ModSecurityRule =
  ID :: string
  Phase :: string
  Action :: string
  Status :: string
  Message :: string
  UserAgent :: string
  ms_Headers :: "(string \<times> string) list"

definition group_or_empty :: "string option \<Rightarrow> string" where
  \<comment> \<open>a field keeps the empty string when its expression does not match\<close>
  "group_or_empty r = (case r of None \<Rightarrow> [] | Some v \<Rightarrow> v)"

definition parseModSecurityRule :: "string \<Rightarrow> ModSecurityRule" where
  "parseModSecurityRule line =
     \<lparr>ID = group_or_empty (idRe line),
      Phase = group_or_empty (phaseRe line),
      Action = group_or_empty (actionRe line),
      Status = group_or_empty (statusRe line),
      Message = group_or_empty (msgRe line),
      UserAgent = group_or_empty (userAgentRe line),
      ms_Headers = []\<rparr>"

definition createDetectionRuleFromModSecurity :: "ModSecurityRule \<Rightarrow> DetectionRule" where
  "createDetectionRuleFromModSecurity modsecRule =
     \<lparr>RuleName = ''detect_modsec_rule_'' @ ID modsecRule,
      ObjectName = ''ModSecurity Rule '' @ ID modsecRule,
      Implies = [],
      HTTPHeaderFields =
        [\<lparr>hdr_Key = ''User-Agent'', hdr_Value = [UserAgent modsecRule], hdr_Confidence = 10\<rparr>],
      MetaTags = [],
      PageContentPatterns = [],
      SSLSignatures = [],
      URLPatterns = []\<rparr>"

fun modsec_scan :: "string list \<Rightarrow> DetectionRule list \<Rightarrow> DetectionRule list" where
  "modsec_scan [] rules = rules"
| "modsec_scan (line # lines) rules =
     (if HasPrefix line ''#'' \<or> length line = 0 then modsec_scan lines rules
      else
        (let modsecRule = parseModSecurityRule line
         in if UserAgent modsecRule \<noteq> []
            then modsec_scan lines (rules @ [createDetectionRuleFromModSecurity modsecRule])
            else modsec_scan lines rules))"

definition modsec_main :: "string \<Rightarrow> string list \<Rightarrow> Ruleset" where
  \<comment> \<open>the ruleset that \<open>main\<close> encodes; \<open>now\<close> is the formatted time of the run\<close>
  "modsec_main now lines =
     \<lparr>RulesetName = ''detect_modsecurity_rules'',
      FormatVersion = ''1.0.4'',
      Author = ''Your Name'',
      CreatedAt = now,
      Description = ''Ruleset to detect ModSecurity rules.'',
      RuleGroups =
        [\<lparr>GroupName = ''detect_modsecurity_rules'', IsEnabled = True,
          DetectionRules = modsec_scan lines []\<rparr>]\<rparr>"


section \<open>Notions used to state the properties\<close>

text \<open>
  What a run has put into its rulesets: the detection rules of the bucket of a category
  (those of the first group of its ruleset, where the loop appends), all the rules of
  a ruleset and of a collection of rulesets, and the invariant of the bucketing loops
  (every ruleset has a group). A rule has the fixed confidence when each of its
  signatures has the confidence 10. \<open>Contains\<close> is \<open>strings.Contains\<close>.
\<close>

definition bucket_rules :: "rulesets \<Rightarrow> string \<Rightarrow> DetectionRule list" where
  \<comment> \<open>the detection rules of the first group of the ruleset of a category\<close>
  "bucket_rules rs category =
     (case map_of rs category of
        None \<Rightarrow> []
      | Some ruleset \<Rightarrow> (case RuleGroups ruleset of [] \<Rightarrow> [] | g # gs \<Rightarrow> DetectionRules g))"

definition ruleset_rules :: "Ruleset \<Rightarrow> DetectionRule list" where
  "ruleset_rules ruleset = concat (map DetectionRules (RuleGroups ruleset))"

definition emitted_rules :: "rulesets \<Rightarrow> DetectionRule list" where
  "emitted_rules rs = concat (map (\<lambda>e. ruleset_rules (snd e)) rs)"

definition groups_present :: "rulesets \<Rightarrow> bool" where
  "groups_present rs = list_all (\<lambda>e. RuleGroups (snd e) \<noteq> []) rs"

definition confidence_10 :: "DetectionRule \<Rightarrow> bool" where
  "confidence_10 rule =
     (list_all (\<lambda>h. hdr_Confidence h = 10) (HTTPHeaderFields rule)
      \<and> list_all (\<lambda>m. meta_Confidence m = 10) (MetaTags rule)
      \<and> list_all (\<lambda>p. pc_Confidence p = 10) (PageContentPatterns rule)
      \<and> list_all (\<lambda>s. ssl_Confidence s = 10) (SSLSignatures rule)
      \<and> list_all (\<lambda>u. url_Confidence u = 10) (URLPatterns rule))"


fun Contains :: "string \<Rightarrow> string \<Rightarrow> bool" where
  "Contains [] substr = (substr = [])"
| "Contains (c # s) substr = (HasPrefix (c # s) substr \<or> Contains s substr)"

text \<open>Example records of the JSON converters.\<close>

definition website_only :: Technology where
  "website_only =
     \<lparr>Cats = [''1''], Cookies = [], Headers = [], Meta = GoNil, Html = [], Scripts = [],
      URL = [], Website = ''https://example.com'', tech_Implies = []\<rparr>"

definition meta_example :: Technology where
  "meta_example =
     \<lparr>Cats = [''1''], Cookies = [], Headers = [(''X-Powered-By'', ''Example'')],
      Meta = GoMap [(''generator'', GoString ''x''),
                    (''keywords'', GoSlice [GoString ''x'', GoFloat64 5, GoString ''y'']),
                    (''a'', GoFloat64 5)],
      Html = [], Scripts = [], URL = [], Website = [], tech_Implies = []\<rparr>"

definition fan_out_example :: Technology where
  "fan_out_example =
     \<lparr>Cats = [''1'', ''3''], Cookies = [], Headers = [(''X-Powered-By'', ''Example'')],
      Meta = GoNil, Html = [], Scripts = [], URL = [], Website = [], tech_Implies = []\<rparr>"

definition unresolved_example :: Technology where
  "unresolved_example =
     \<lparr>Cats = [''999'', ''2''], Cookies = [], Headers = [(''Server'', ''Ghost'')],
      Meta = GoNil, Html = [], Scripts = [], URL = [], Website = [], tech_Implies = []\<rparr>"

definition categories_example :: "(string \<times> Category) list" where
  "categories_example = [(''1'', \<lparr>cat_Name = ''CMS''\<rparr>), (''22'', \<lparr>cat_Name = ''Web servers''\<rparr>)]"


definition builtwith_example :: BuiltWithTechnology where
  "builtwith_example =
     \<lparr>Categories = [1],
      Patterns = \<lparr>bw_URL = ''wp-content'', bw_HTML = ''wp-json'',
                  bw_Headers = [(''X-Powered-By'', ''WordPress'')]\<rparr>,
      bw_Implies = [''PHP'']\<rparr>"

definition unresolved_example_bw :: BuiltWithTechnology where
  "unresolved_example_bw =
     \<lparr>Categories = [7], Patterns = \<lparr>bw_URL = ''ghost'', bw_HTML = [], bw_Headers = []\<rparr>,
      bw_Implies = []\<rparr>"

text \<open>
  Example lines of the line-oriented converters. The double quote is \<open>CHR 0x22\<close> and
  the single quote \<open>CHR 0x27\<close>.
\<close>

definition drupal_row :: string where
  \<comment> \<open>the line \<open>"1","abc123","Drupal"\<close>, with its six double quotes\<close>
  "drupal_row =
     [CHR 0x22] @ ''1'' @ [CHR 0x22] @ '','' @ [CHR 0x22] @ ''abc123'' @ [CHR 0x22] @ '',''
     @ [CHR 0x22] @ ''Drupal'' @ [CHR 0x22]"

definition badbot_line :: string where
  "badbot_line =
     ''SecRule REQUEST_HEADERS:User-Agent '' @ [CHR 0x22] @ ''BadBot'' @ [CHR 0x22] @ '' ''
     @ [CHR 0x22] @ ''id:12345,phase:1,deny,status:403,msg:'' @ [CHR 0x27] @ ''Bad Bot''
     @ [CHR 0x27] @ [CHR 0x22]"

definition badbot_long_id_line :: string where
  "badbot_long_id_line =
     ''SecRule REQUEST_HEADERS:User-Agent '' @ [CHR 0x22] @ ''BadBot'' @ [CHR 0x22] @ '' ''
     @ [CHR 0x22] @ ''id:123456,deny'' @ [CHR 0x22]"

definition badbot_comment_line :: string where
  "badbot_comment_line =
     ''#SecRule REQUEST_HEADERS:User-Agent '' @ [CHR 0x22] @ ''BadBot'' @ [CHR 0x22] @ '' ''
     @ [CHR 0x22] @ ''id:12345,deny'' @ [CHR 0x22]"

definition no_id_line :: string where
  "no_id_line =
     ''SecRule REQUEST_HEADERS:User-Agent '' @ [CHR 0x22] @ ''BadBot'' @ [CHR 0x22] @ '' ''
     @ [CHR 0x22] @ ''deny,status:403'' @ [CHR 0x22]"

definition no_id_comment_line :: string where
  "no_id_comment_line =
     ''# SecRule REQUEST_HEADERS:User-Agent '' @ [CHR 0x22] @ ''BadBot'' @ [CHR 0x22] @ '' ''
     @ [CHR 0x22] @ ''deny,status:403'' @ [CHR 0x22]"

definition no_ua_line :: string where
  "no_ua_line =
     ''SecRule REQUEST_URI '' @ [CHR 0x22] @ ''@contains /admin'' @ [CHR 0x22] @ '' ''
     @ [CHR 0x22] @ ''id:7,deny'' @ [CHR 0x22]"

section \<open>Properties of the favicon converter\<close>

lemma csv_Read_drupal_row: "csv_Read drupal_row = Some [''1'', ''abc123'', ''Drupal'']"
  by (simp add: csv_Read_def drupal_row_def)

lemma rule_name_Drupal: "rule_name ''Drupal'' = ''detect_drupal''"
  by (simp add: rule_name_def ToLower_def ReplaceAll_def lower_char_def)

lemma favicon_scan_drupal_row:
  "favicon_scan [drupal_row] rules = rules @ [createFaviconRule ''1'' ''abc123'' ''Drupal'']"
proof -
  have "\<not> HasPrefix drupal_row ''#''" "length drupal_row \<noteq> 0"
    by (simp_all add: HasPrefix_def drupal_row_def)
  then show ?thesis
    by (simp add: csv_Read_drupal_row Trim_def)
qed

text \<open>
  C4. A file made of a header line and the data row \<open>"1","abc123","Drupal"\<close> gives one
  rule: it is named \<open>detect_drupal\<close>, its object name is \<open>Drupal\<close>, its only
  signature is one page-content signature whose MD5 list is \<open>["abc123"]\<close>, and every
  other signature list is empty.
\<close>

theorem favicon_drupal_rule:
  "RuleGroups (favicon_main now [header, drupal_row]) =
     [\<lparr>GroupName = ''detect_favicon_technologies'', IsEnabled = True,
       DetectionRules =
         [\<lparr>RuleName = ''detect_drupal'', ObjectName = ''Drupal'', Implies = [],
           HTTPHeaderFields = [], MetaTags = [],
           PageContentPatterns =
             [\<lparr>pc_Key = [], pc_Attribute = [], pc_Signature = [], pc_Text = [],
               pc_MD5Hash = [''abc123''], pc_Confidence = 10\<rparr>],
           SSLSignatures = [], URLPatterns = []\<rparr>]\<rparr>]"
  by (simp add: favicon_main_def favicon_scan_drupal_row createFaviconRule_def rule_name_Drupal
      del: favicon_scan.simps)

text \<open>
  C10. The first line of the file never reaches the row loop: the rules of the run are
  those of the lines after it, whatever the first line is. A file whose only line is the
  well-formed row \<open>"1","abc123","Drupal"\<close> gives no rule, although the row loop makes
  a rule of that line.
\<close>

theorem favicon_first_line_discarded:
  "RuleGroups (favicon_main now (first # rows)) =
     [\<lparr>GroupName = ''detect_favicon_technologies'', IsEnabled = True,
       DetectionRules = favicon_scan rows []\<rparr>]
   \<and> RuleGroups (favicon_main now [drupal_row]) =
     [\<lparr>GroupName = ''detect_favicon_technologies'', IsEnabled = True, DetectionRules = []\<rparr>]
   \<and> favicon_scan [drupal_row] [] = [createFaviconRule ''1'' ''abc123'' ''Drupal'']"
  by (simp add: favicon_main_def favicon_scan_drupal_row del: favicon_scan.simps(2))

section \<open>Properties of the rule constructors\<close>

lemma createRule_cats_website:
  "Website details \<noteq> [] \<Longrightarrow>
   URLPatterns (createRule_cats name details) =
     map url_sig (URL details) @ [url_sig (Website details)]
   \<and> PageContentPatterns (createRule_cats name details) =
     map (content_sig ''html'') (Html details) @ map (content_sig ''script'') (Scripts details)
     @ [attr_sig ''a'' ''href'' (Website details), attr_sig ''link'' ''href'' (Website details),
        attr_sig ''script'' ''src'' (Website details)]"
  by (simp add: createRule_cats_def)

lemma createRule_website:
  "Website details \<noteq> [] \<Longrightarrow>
   URLPatterns (createRule name details) =
     map url_sig (URL details) @ [url_sig (Website details)]
   \<and> PageContentPatterns (createRule name details) =
     map (content_sig ''html'') (Html details) @ map (content_sig ''script'') (Scripts details)
     @ [attr_sig ''a'' ''href'' (Website details)]"
  by (simp add: createRule_def)

text \<open>
  C1. On a record that sets nothing but its website, \<open>createRule\<close> of
  \<open>cmd/convertTechJSON/main.go\<close> builds two signatures for the website, the URL
  micro-signature and the anchor-tag \<open>href\<close> signature; the link-tag and script-tag
  signatures are missing. The \<open>createRule\<close> of the converter that reads the
  categories from the input builds the four signatures on the same record.
\<close>

theorem createRule_website_only:
  "URLPatterns (createRule ''Example'' website_only) = [url_sig ''https://example.com'']
   \<and> PageContentPatterns (createRule ''Example'' website_only) =
       [attr_sig ''a'' ''href'' ''https://example.com'']
   \<and> URLPatterns (createRule_cats ''Example'' website_only) = [url_sig ''https://example.com'']
   \<and> PageContentPatterns (createRule_cats ''Example'' website_only) =
       [attr_sig ''a'' ''href'' ''https://example.com'',
        attr_sig ''link'' ''href'' ''https://example.com'',
        attr_sig ''script'' ''src'' ''https://example.com'']"
  by (simp add: createRule_def createRule_cats_def website_only_def)


lemma meta_entry_name: "t \<in> set (meta_entry (k, v)) \<Longrightarrow> meta_Name t = k"
  by (cases v) auto






section \<open>Properties of the bucketing loops\<close>

lemma set_AList_update: "set (AList.update k v al) \<subseteq> insert (k, v) (set al)"
  by (induction al) auto

lemma append_rule_ok:
  assumes "RuleGroups ruleset = g # gs"
  shows "append_rule rule ruleset =
           Inr (ruleset\<lparr>RuleGroups := g\<lparr>DetectionRules := DetectionRules g @ [rule]\<rparr> # gs\<rparr>)"
  using assms by (simp add: append_rule_def)

lemma bucket_append_ok:
  assumes inv: "groups_present rs" and fresh: "RuleGroups fresh = [g0]" "DetectionRules g0 = []"
  shows "\<exists>rs'. bucket_append fresh rule category rs = Inr rs'
           \<and> groups_present rs'
           \<and> map_of rs' category \<noteq> None
           \<and> bucket_rules rs' category = bucket_rules rs category @ [rule]
           \<and> (\<forall>c. c \<noteq> category \<longrightarrow> map_of rs' c = map_of rs c)
           \<and> set (emitted_rules rs') \<subseteq> insert rule (set (emitted_rules rs))
           \<and> (rs = [] \<longrightarrow> rs' \<noteq> [])"
proof -
  define rs1 where "rs1 = (case map_of rs category of None \<Rightarrow> rs @ [(category, fresh)] | Some _ \<Rightarrow> rs)"
  have inv1: "groups_present rs1"
    using inv fresh by (simp add: rs1_def groups_present_def split: option.split)
  have em1: "set (emitted_rules rs1) = set (emitted_rules rs)"
    using fresh by (simp add: rs1_def emitted_rules_def ruleset_rules_def split: option.split)
  obtain ruleset where look: "map_of rs1 category = Some ruleset"
    by (cases "map_of rs category") (auto simp: rs1_def map_add_def)
  then have mem: "(category, ruleset) \<in> set rs1" by (rule map_of_SomeD)
  with inv1 have "RuleGroups ruleset \<noteq> []"
    by (auto simp: groups_present_def list_all_iff)
  then obtain g gs where groups: "RuleGroups ruleset = g # gs" by (cases "RuleGroups ruleset") auto
  define ruleset' where
    "ruleset' = ruleset\<lparr>RuleGroups := g\<lparr>DetectionRules := DetectionRules g @ [rule]\<rparr> # gs\<rparr>"
  define rs' where "rs' = AList.update category ruleset' rs1"
  have res: "bucket_append fresh rule category rs = Inr rs'"
    using look append_rule_ok [OF groups, of rule]
    by (simp add: bucket_append_def rs1_def [symmetric] rs'_def ruleset'_def)
  have sub: "set rs' \<subseteq> insert (category, ruleset') (set rs1)"
    unfolding rs'_def by (rule set_AList_update)
  have inv': "groups_present rs'"
    using sub inv1 by (auto simp: groups_present_def list_all_iff ruleset'_def)
  have look': "map_of rs' c = (if c = category then Some ruleset' else map_of rs1 c)" for c
    by (simp add: rs'_def update_conv')
  have old: "bucket_rules rs category = DetectionRules g"
  proof (cases "map_of rs category")
    case None
    with look have "ruleset = fresh" by (simp add: rs1_def map_add_def)
    with groups fresh have "DetectionRules g = []" by simp
    with None show ?thesis by (simp add: bucket_rules_def)
  next
    case (Some r)
    with look have "r = ruleset" by (simp add: rs1_def)
    with Some groups show ?thesis by (simp add: bucket_rules_def)
  qed
  have new: "bucket_rules rs' category = bucket_rules rs category @ [rule]"
    unfolding old by (simp add: bucket_rules_def look' ruleset'_def)
  have others: "\<forall>c. c \<noteq> category \<longrightarrow> map_of rs' c = map_of rs c"
    by (auto simp: look' rs1_def map_add_def split: option.split)
  have rr: "set (ruleset_rules ruleset') = insert rule (set (ruleset_rules ruleset))"
    by (auto simp: ruleset_rules_def ruleset'_def groups)
  have "set (ruleset_rules ruleset) \<subseteq> set (emitted_rules rs1)"
    using mem by (force simp: emitted_rules_def)
  with rr sub have "set (emitted_rules rs') \<subseteq> insert rule (set (emitted_rules rs1))"
    by (fastforce simp: emitted_rules_def)
  with em1 have em: "set (emitted_rules rs') \<subseteq> insert rule (set (emitted_rules rs))" by simp
  have "rs' \<noteq> []" by (simp add: rs'_def)
  with res inv' look' new others em show ?thesis by auto
qed

lemma new_ruleset_groups:
  "\<exists>g0. RuleGroups (new_ruleset category now) = [g0] \<and> DetectionRules g0 = []"
  "\<exists>g0. RuleGroups (new_ruleset_cats category now) = [g0] \<and> DetectionRules g0 = []"
  "\<exists>g0. RuleGroups (new_ruleset_bw category now) = [g0] \<and> DetectionRules g0 = []"
  by (simp_all add: new_ruleset_def new_ruleset_cats_def new_ruleset_bw_def)


subsection \<open>The converter with the static table\<close>

lemma bucket_cats_ok:
  "groups_present rs \<Longrightarrow>
   \<exists>rs'. bucket_cats clock rule cats rs = Inr rs' \<and> groups_present rs'
         \<and> set (emitted_rules rs') \<subseteq> insert rule (set (emitted_rules rs))"
proof (induction cats arbitrary: rs)
  case Nil
  then show ?case by auto
next
  case (Cons cat cats)
  show ?case
  proof (cases "map_of categoryMappings cat")
    case None
    with Cons show ?thesis by simp
  next
    case (Some category)
    obtain g0 where "RuleGroups (new_ruleset category (clock (length rs))) = [g0]" "DetectionRules g0 = []"
      using new_ruleset_groups by blast
    with Cons.prems obtain rs1 where
      step: "bucket_append (new_ruleset category (clock (length rs))) rule category rs = Inr rs1"
      and inv1: "groups_present rs1"
      and em1: "set (emitted_rules rs1) \<subseteq> insert rule (set (emitted_rules rs))"
      using bucket_append_ok [of rs _ g0 rule "category"] by blast
    from Cons.IH [OF inv1] obtain rs' where
      "bucket_cats clock rule cats rs1 = Inr rs'" "groups_present rs'"
      "set (emitted_rules rs') \<subseteq> insert rule (set (emitted_rules rs1))"
      by blast
    with Some step em1 show ?thesis by auto
  qed
qed

lemma bucket_cats_filter:
  "bucket_cats clock rule cats rs =
   bucket_cats clock rule (filter (\<lambda>c. map_of categoryMappings c \<noteq> None) cats) rs"
proof (induction cats arbitrary: rs)
  case Nil
  then show ?case by simp
next
  case (Cons cat cats)
  then show ?case by (cases "map_of categoryMappings cat") (simp_all split: sum.split)
qed

lemma bucket_cats_unresolved:
  "list_all (\<lambda>c. map_of categoryMappings c = None) cats \<Longrightarrow> bucket_cats clock rule cats rs = Inr rs"
  by (induction cats) simp_all

lemma process_technologies_ok:
  "groups_present rs \<Longrightarrow>
   \<exists>rs'. process_technologies clock technologies rs = Inr rs' \<and> groups_present rs'
         \<and> set (emitted_rules rs')
             \<subseteq> set (emitted_rules rs) \<union> (\<lambda>t. createRule (fst t) (snd t)) ` set technologies"
proof (induction technologies arbitrary: rs)
  case Nil
  then show ?case by simp
next
  case (Cons t technologies)
  obtain name details where t: "t = (name, details)" by (cases t)
  from bucket_cats_ok [OF Cons.prems] obtain rs1 where
    step: "bucket_cats clock (createRule name details) (Cats details) rs = Inr rs1"
    and inv1: "groups_present rs1"
    and em1: "set (emitted_rules rs1) \<subseteq> insert (createRule name details) (set (emitted_rules rs))"
    by blast
  from Cons.IH [OF inv1] obtain rs' where
    "process_technologies clock technologies rs1 = Inr rs'" "groups_present rs'"
    "set (emitted_rules rs')
       \<subseteq> set (emitted_rules rs1) \<union> (\<lambda>t. createRule (fst t) (snd t)) ` set technologies"
    by blast
  with t step em1 show ?case by auto
qed

lemma process_technologies_append:
  "process_technologies clock (ts @ us) rs =
     (case process_technologies clock ts rs of Inl e \<Rightarrow> Inl e | Inr rs' \<Rightarrow> process_technologies clock us rs')"
proof (induction ts arbitrary: rs)
  case Nil
  then show ?case by simp
next
  case (Cons t ts)
  obtain name details where t: "t = (name, details)" by (cases t)
  with Cons show ?case by (simp split: sum.split)
qed

lemma process_technologies_unresolved:
  "list_all (\<lambda>t. list_all (\<lambda>c. map_of categoryMappings c = None) (Cats (snd t))) technologies \<Longrightarrow>
   process_technologies clock technologies rs = Inr rs"
proof (induction technologies)
  case Nil
  then show ?case by simp
next
  case (Cons t technologies)
  obtain name details where t: "t = (name, details)" by (cases t)
  with Cons show ?case by (simp add: bucket_cats_unresolved)
qed

subsection \<open>The converter with the categories of the input\<close>

lemma bucket_cats_cats_ok:
  "groups_present rs \<Longrightarrow>
   \<exists>rs'. bucket_cats_cats categories clock rule cats rs = Inr rs' \<and> groups_present rs'
         \<and> set (emitted_rules rs') \<subseteq> insert rule (set (emitted_rules rs))"
proof (induction cats arbitrary: rs)
  case Nil
  then show ?case by auto
next
  case (Cons cat cats)
  show ?case
  proof (cases "map_of categories cat")
    case None
    with Cons show ?thesis by simp
  next
    case (Some category)
    obtain g0 where "RuleGroups (new_ruleset_cats (cat_Name category) (clock (length rs))) = [g0]" "DetectionRules g0 = []"
      using new_ruleset_groups by blast
    with Cons.prems obtain rs1 where
      step: "bucket_append (new_ruleset_cats (cat_Name category) (clock (length rs))) rule (cat_Name category) rs = Inr rs1"
      and inv1: "groups_present rs1"
      and em1: "set (emitted_rules rs1) \<subseteq> insert rule (set (emitted_rules rs))"
      using bucket_append_ok [of rs _ g0 rule "(cat_Name category)"] by blast
    from Cons.IH [OF inv1] obtain rs' where
      "bucket_cats_cats categories clock rule cats rs1 = Inr rs'" "groups_present rs'"
      "set (emitted_rules rs') \<subseteq> insert rule (set (emitted_rules rs1))"
      by blast
    with Some step em1 show ?thesis by auto
  qed
qed

lemma bucket_cats_cats_filter:
  "bucket_cats_cats categories clock rule cats rs =
   bucket_cats_cats categories clock rule (filter (\<lambda>c. map_of categories c \<noteq> None) cats) rs"
proof (induction cats arbitrary: rs)
  case Nil
  then show ?case by simp
next
  case (Cons cat cats)
  then show ?case by (cases "map_of categories cat") (simp_all split: sum.split)
qed

lemma bucket_cats_cats_unresolved:
  "list_all (\<lambda>c. map_of categories c = None) cats \<Longrightarrow> bucket_cats_cats categories clock rule cats rs = Inr rs"
  by (induction cats) simp_all

lemma process_technologies_cats_ok:
  "groups_present rs \<Longrightarrow>
   \<exists>rs'. process_technologies_cats categories clock technologies rs = Inr rs' \<and> groups_present rs'
         \<and> set (emitted_rules rs')
             \<subseteq> set (emitted_rules rs) \<union> (\<lambda>t. createRule_cats (fst t) (snd t)) ` set technologies"
proof (induction technologies arbitrary: rs)
  case Nil
  then show ?case by simp
next
  case (Cons t technologies)
  obtain name details where t: "t = (name, details)" by (cases t)
  from bucket_cats_cats_ok [OF Cons.prems] obtain rs1 where
    step: "bucket_cats_cats categories clock (createRule_cats name details) (Cats details) rs = Inr rs1"
    and inv1: "groups_present rs1"
    and em1: "set (emitted_rules rs1) \<subseteq> insert (createRule_cats name details) (set (emitted_rules rs))"
    by blast
  from Cons.IH [OF inv1] obtain rs' where
    "process_technologies_cats categories clock technologies rs1 = Inr rs'" "groups_present rs'"
    "set (emitted_rules rs')
       \<subseteq> set (emitted_rules rs1) \<union> (\<lambda>t. createRule_cats (fst t) (snd t)) ` set technologies"
    by blast
  with t step em1 show ?case by auto
qed

lemma process_technologies_cats_append:
  "process_technologies_cats categories clock (ts @ us) rs =
     (case process_technologies_cats categories clock ts rs of Inl e \<Rightarrow> Inl e | Inr rs' \<Rightarrow> process_technologies_cats categories clock us rs')"
proof (induction ts arbitrary: rs)
  case Nil
  then show ?case by simp
next
  case (Cons t ts)
  obtain name details where t: "t = (name, details)" by (cases t)
  with Cons show ?case by (simp split: sum.split)
qed

lemma process_technologies_cats_unresolved:
  "list_all (\<lambda>t. list_all (\<lambda>c. map_of categories c = None) (Cats (snd t))) technologies \<Longrightarrow>
   process_technologies_cats categories clock technologies rs = Inr rs"
proof (induction technologies)
  case Nil
  then show ?case by simp
next
  case (Cons t technologies)
  obtain name details where t: "t = (name, details)" by (cases t)
  with Cons show ?case by (simp add: bucket_cats_cats_unresolved)
qed

subsection \<open>The BuiltWith converter\<close>

lemma bucket_cats_bw_ok:
  "groups_present rs \<Longrightarrow>
   \<exists>rs'. bucket_cats_bw clock rule cats rs = Inr rs' \<and> groups_present rs'
         \<and> set (emitted_rules rs') \<subseteq> insert rule (set (emitted_rules rs))"
proof (induction cats arbitrary: rs)
  case Nil
  then show ?case by auto
next
  case (Cons cat cats)
  show ?case
  proof (cases "map_of categoryMappings_bw cat")
    case None
    with Cons show ?thesis by simp
  next
    case (Some category)
    obtain g0 where "RuleGroups (new_ruleset_bw category (clock (length rs))) = [g0]" "DetectionRules g0 = []"
      using new_ruleset_groups by blast
    with Cons.prems obtain rs1 where
      step: "bucket_append (new_ruleset_bw category (clock (length rs))) rule category rs = Inr rs1"
      and inv1: "groups_present rs1"
      and em1: "set (emitted_rules rs1) \<subseteq> insert rule (set (emitted_rules rs))"
      using bucket_append_ok [of rs _ g0 rule "category"] by blast
    from Cons.IH [OF inv1] obtain rs' where
      "bucket_cats_bw clock rule cats rs1 = Inr rs'" "groups_present rs'"
      "set (emitted_rules rs') \<subseteq> insert rule (set (emitted_rules rs1))"
      by blast
    with Some step em1 show ?thesis by auto
  qed
qed

lemma bucket_cats_bw_filter:
  "bucket_cats_bw clock rule cats rs =
   bucket_cats_bw clock rule (filter (\<lambda>c. map_of categoryMappings_bw c \<noteq> None) cats) rs"
proof (induction cats arbitrary: rs)
  case Nil
  then show ?case by simp
next
  case (Cons cat cats)
  then show ?case by (cases "map_of categoryMappings_bw cat") (simp_all split: sum.split)
qed

lemma bucket_cats_bw_unresolved:
  "list_all (\<lambda>c. map_of categoryMappings_bw c = None) cats \<Longrightarrow> bucket_cats_bw clock rule cats rs = Inr rs"
  by (induction cats) simp_all

lemma process_technologies_bw_ok:
  "groups_present rs \<Longrightarrow>
   \<exists>rs'. process_technologies_bw clock technologies rs = Inr rs' \<and> groups_present rs'
         \<and> set (emitted_rules rs')
             \<subseteq> set (emitted_rules rs) \<union> (\<lambda>t. createRule_bw (fst t) (snd t)) ` set technologies"
proof (induction technologies arbitrary: rs)
  case Nil
  then show ?case by simp
next
  case (Cons t technologies)
  obtain name details where t: "t = (name, details)" by (cases t)
  from bucket_cats_bw_ok [OF Cons.prems] obtain rs1 where
    step: "bucket_cats_bw clock (createRule_bw name details) (Categories details) rs = Inr rs1"
    and inv1: "groups_present rs1"
    and em1: "set (emitted_rules rs1) \<subseteq> insert (createRule_bw name details) (set (emitted_rules rs))"
    by blast
  from Cons.IH [OF inv1] obtain rs' where
    "process_technologies_bw clock technologies rs1 = Inr rs'" "groups_present rs'"
    "set (emitted_rules rs')
       \<subseteq> set (emitted_rules rs1) \<union> (\<lambda>t. createRule_bw (fst t) (snd t)) ` set technologies"
    by blast
  with t step em1 show ?case by auto
qed

lemma process_technologies_bw_append:
  "process_technologies_bw clock (ts @ us) rs =
     (case process_technologies_bw clock ts rs of Inl e \<Rightarrow> Inl e | Inr rs' \<Rightarrow> process_technologies_bw clock us rs')"
proof (induction ts arbitrary: rs)
  case Nil
  then show ?case by simp
next
  case (Cons t ts)
  obtain name details where t: "t = (name, details)" by (cases t)
  with Cons show ?case by (simp split: sum.split)
qed

lemma process_technologies_bw_unresolved:
  "list_all (\<lambda>t. list_all (\<lambda>c. map_of categoryMappings_bw c = None) (Categories (snd t))) technologies \<Longrightarrow>
   process_technologies_bw clock technologies rs = Inr rs"
proof (induction technologies)
  case Nil
  then show ?case by simp
next
  case (Cons t technologies)
  obtain name details where t: "t = (name, details)" by (cases t)
  with Cons show ?case by (simp add: bucket_cats_bw_unresolved)
qed

lemma categoryMappings_1_3:
  "map_of categoryMappings ''1'' = Some ''cms''"
  "map_of categoryMappings ''3'' = Some ''web_frameworks''"
  by (simp_all add: categoryMappings_def)

lemma groups_present_Nil: "groups_present []"
  by (simp add: groups_present_def)

text \<open>
  C5. In the converter with the static table, which maps \<open>"1"\<close> to \<open>cms\<close> and
  \<open>"3"\<close> to \<open>web_frameworks\<close>, a record whose categories are \<open>["1","3"]\<close>,
  processed after any other records, adds its rule at the end of the detection rules of
  the \<open>cms\<close> ruleset and at the end of those of the \<open>web_frameworks\<close> ruleset; both
  rulesets exist afterwards, and no other ruleset changes.
\<close>

theorem category_fan_out:
  assumes "Cats details = [''1'', ''3'']"
  shows "map_of categoryMappings ''1'' = Some ''cms''
    \<and> map_of categoryMappings ''3'' = Some ''web_frameworks''
    \<and> (\<exists>rs rs'. main_rulesets clock technologies = Inr rs
         \<and> main_rulesets clock (technologies @ [(name, details)]) = Inr rs'
         \<and> map_of rs' ''cms'' \<noteq> None \<and> map_of rs' ''web_frameworks'' \<noteq> None
         \<and> bucket_rules rs' ''cms'' = bucket_rules rs ''cms'' @ [createRule name details]
         \<and> bucket_rules rs' ''web_frameworks'' =
             bucket_rules rs ''web_frameworks'' @ [createRule name details]
         \<and> (\<forall>c. c \<noteq> ''cms'' \<and> c \<noteq> ''web_frameworks'' \<longrightarrow> map_of rs' c = map_of rs c))"
proof -
  let ?rule = "createRule name details"
  obtain rs where run: "process_technologies clock technologies [] = Inr rs"
    and inv: "groups_present rs"
    using process_technologies_ok [OF groups_present_Nil] by blast
  obtain g1 where "RuleGroups (new_ruleset ''cms'' (clock (length rs))) = [g1]"
    "DetectionRules g1 = []"
    using new_ruleset_groups(1) by blast
  with inv obtain rs1 where
    s1: "bucket_append (new_ruleset ''cms'' (clock (length rs))) ?rule ''cms'' rs = Inr rs1"
    and inv1: "groups_present rs1"
    and in1: "map_of rs1 ''cms'' \<noteq> None"
    and b1: "bucket_rules rs1 ''cms'' = bucket_rules rs ''cms'' @ [?rule]"
    and o1: "\<forall>c. c \<noteq> ''cms'' \<longrightarrow> map_of rs1 c = map_of rs c"
    using bucket_append_ok [of rs _ g1 ?rule "''cms''"] by blast
  obtain g2 where "RuleGroups (new_ruleset ''web_frameworks'' (clock (length rs1))) = [g2]"
    "DetectionRules g2 = []"
    using new_ruleset_groups(1) by blast
  with inv1 obtain rs2 where
    s2: "bucket_append (new_ruleset ''web_frameworks'' (clock (length rs1))) ?rule
           ''web_frameworks'' rs1 = Inr rs2"
    and in2: "map_of rs2 ''web_frameworks'' \<noteq> None"
    and b2: "bucket_rules rs2 ''web_frameworks'' = bucket_rules rs1 ''web_frameworks'' @ [?rule]"
    and o2: "\<forall>c. c \<noteq> ''web_frameworks'' \<longrightarrow> map_of rs2 c = map_of rs1 c"
    using bucket_append_ok [of rs1 _ g2 ?rule "''web_frameworks''"] by blast
  have step: "bucket_cats clock ?rule (Cats details) rs = Inr rs2"
    using s1 s2 by (simp add: assms categoryMappings_1_3)
  have run': "main_rulesets clock (technologies @ [(name, details)]) = Inr rs2"
    by (simp add: main_rulesets_def process_technologies_append run step)
  have c2: "map_of rs2 ''cms'' = map_of rs1 ''cms''"
    using o2 [rule_format, of "''cms''"] by simp
  have w1: "map_of rs1 ''web_frameworks'' = map_of rs ''web_frameworks''"
    using o1 [rule_format, of "''web_frameworks''"] by simp
  have cms: "bucket_rules rs2 ''cms'' = bucket_rules rs ''cms'' @ [?rule]"
    using b1 by (simp add: bucket_rules_def c2)
  have wf: "bucket_rules rs2 ''web_frameworks'' = bucket_rules rs ''web_frameworks'' @ [?rule]"
    using b2 by (simp add: bucket_rules_def w1)
  have others: "\<forall>c. c \<noteq> ''cms'' \<and> c \<noteq> ''web_frameworks'' \<longrightarrow> map_of rs2 c = map_of rs c"
  proof (intro allI impI)
    fix c :: string
    assume c: "c \<noteq> ''cms'' \<and> c \<noteq> ''web_frameworks''"
    then have "map_of rs2 c = map_of rs1 c" using o2 [rule_format, of c] by (elim conjE)
    also have "\<dots> = map_of rs c" using c o1 [rule_format, of c] by (elim conjE)
    finally show "map_of rs2 c = map_of rs c" .
  qed
  have in1': "map_of rs2 ''cms'' \<noteq> None" using in1 by (simp only: c2 not_False_eq_True)
  have run0: "main_rulesets clock technologies = Inr rs"
    using run by (simp add: main_rulesets_def)
  show ?thesis
  proof (intro conjI exI)
    show "map_of categoryMappings ''1'' = Some ''cms''" by (rule categoryMappings_1_3(1))
    show "map_of categoryMappings ''3'' = Some ''web_frameworks''" by (rule categoryMappings_1_3(2))
    show "main_rulesets clock technologies = Inr rs" by (rule run0)
    show "main_rulesets clock (technologies @ [(name, details)]) = Inr rs2" by (rule run')
    show "map_of rs2 ''cms'' \<noteq> None" by (rule in1')
    show "map_of rs2 ''web_frameworks'' \<noteq> None" by (rule in2)
    show "bucket_rules rs2 ''cms'' = bucket_rules rs ''cms'' @ [?rule]" by (rule cms)
    show "bucket_rules rs2 ''web_frameworks'' = bucket_rules rs ''web_frameworks'' @ [?rule]"
      by (rule wf)
    show "\<forall>c. c \<noteq> ''cms'' \<and> c \<noteq> ''web_frameworks'' \<longrightarrow> map_of rs2 c = map_of rs c"
      by (rule others)
  qed
qed

theorem category_fan_out_witness:
  "\<exists>rs'. main_rulesets (\<lambda>n. ''2024-01-01T00:00:00Z'') [(''Example'', fan_out_example)] = Inr rs'
     \<and> bucket_rules rs' ''cms'' = [createRule ''Example'' fan_out_example]
     \<and> bucket_rules rs' ''web_frameworks'' = [createRule ''Example'' fan_out_example]"
proof -
  have c: "Cats fan_out_example = [''1'', ''3'']" by (simp add: fan_out_example_def)
  have e: "main_rulesets (\<lambda>n. ''2024-01-01T00:00:00Z'') [] = Inr []"
    by (simp add: main_rulesets_def)
  have b: "bucket_rules [] c = []" for c by (simp add: bucket_rules_def)
  from category_fan_out [OF c, of "\<lambda>n. ''2024-01-01T00:00:00Z''" "[]" "''Example''"]
  obtain rs rs' where
    "main_rulesets (\<lambda>n. ''2024-01-01T00:00:00Z'') [] = Inr rs"
    "main_rulesets (\<lambda>n. ''2024-01-01T00:00:00Z'') ([] @ [(''Example'', fan_out_example)]) = Inr rs'"
    "bucket_rules rs' ''cms'' = bucket_rules rs ''cms'' @ [createRule ''Example'' fan_out_example]"
    "bucket_rules rs' ''web_frameworks'' =
       bucket_rules rs ''web_frameworks'' @ [createRule ''Example'' fan_out_example]"
    by (elim conjE exE)
  then show ?thesis
    unfolding e by (simp add: b)
qed

lemma process_technologies_drop:
  assumes "list_all (\<lambda>c. map_of categoryMappings c = None) (Cats details)"
  shows "process_technologies clock (before @ (name, details) # after) rs =
         process_technologies clock (before @ after) rs"
  using assms
  by (simp add: process_technologies_append bucket_cats_unresolved split: sum.split)

lemma process_technologies_cats_drop:
  assumes "list_all (\<lambda>c. map_of categories c = None) (Cats details)"
  shows "process_technologies_cats categories clock (before @ (name, details) # after) rs =
         process_technologies_cats categories clock (before @ after) rs"
  using assms
  by (simp add: process_technologies_cats_append bucket_cats_cats_unresolved split: sum.split)

lemma process_technologies_bw_drop:
  assumes "list_all (\<lambda>c. map_of categoryMappings_bw c = None) (Categories details)"
  shows "process_technologies_bw clock (before @ (name, details) # after) rs =
         process_technologies_bw clock (before @ after) rs"
  using assms
  by (simp add: process_technologies_bw_append bucket_cats_bw_unresolved split: sum.split)

text \<open>
  C6. In each of the three bucketing converters, a category identifier that the table
  (or, in the converter that reads them from the input, the category dictionary of the
  input) does not have is skipped and the other identifiers of the record are processed
  as if it were not there. A record all of whose identifiers are unresolved changes no
  ruleset: the run is the run without the record. No run fails, and a run all of whose
  records are unresolved ends with no ruleset, so that no file is written.
\<close>

theorem unresolved_categories_skipped:
  "bucket_cats clock rule cats rs =
     bucket_cats clock rule (filter (\<lambda>c. map_of categoryMappings c \<noteq> None) cats) rs
   \<and> bucket_cats_cats categories clock rule cats rs =
     bucket_cats_cats categories clock rule (filter (\<lambda>c. map_of categories c \<noteq> None) cats) rs
   \<and> bucket_cats_bw clock rule cats_bw rs =
     bucket_cats_bw clock rule (filter (\<lambda>c. map_of categoryMappings_bw c \<noteq> None) cats_bw) rs
   \<and> ((\<forall>c\<in>set (Cats details). map_of categoryMappings c = None) \<longrightarrow>
        bucket_cats clock rule (Cats details) rs = Inr rs
        \<and> main_rulesets clock (before @ (name, details) # after) =
            main_rulesets clock (before @ after))
   \<and> ((\<forall>c\<in>set (Cats details). map_of categories c = None) \<longrightarrow>
        bucket_cats_cats categories clock rule (Cats details) rs = Inr rs
        \<and> main_rulesets_cats categories clock (before @ (name, details) # after) =
            main_rulesets_cats categories clock (before @ after))
   \<and> ((\<forall>c\<in>set (Categories details_bw). map_of categoryMappings_bw c = None) \<longrightarrow>
        bucket_cats_bw clock rule (Categories details_bw) rs = Inr rs
        \<and> main_rulesets_bw clock (before_bw @ (name, details_bw) # after_bw) =
            main_rulesets_bw clock (before_bw @ after_bw))
   \<and> (\<exists>rs'. main_rulesets clock technologies = Inr rs')
   \<and> (\<exists>rs'. main_rulesets_cats categories clock technologies = Inr rs')
   \<and> (\<exists>rs'. main_rulesets_bw clock technologies_bw = Inr rs')
   \<and> ((\<forall>t\<in>set technologies. \<forall>c\<in>set (Cats (snd t)). map_of categoryMappings c = None) \<longrightarrow>
        main_rulesets clock technologies = Inr [])
   \<and> ((\<forall>t\<in>set technologies. \<forall>c\<in>set (Cats (snd t)). map_of categories c = None) \<longrightarrow>
        main_rulesets_cats categories clock technologies = Inr [])
   \<and> ((\<forall>t\<in>set technologies_bw. \<forall>c\<in>set (Categories (snd t)). map_of categoryMappings_bw c = None)
        \<longrightarrow> main_rulesets_bw clock technologies_bw = Inr [])
   \<and> main_files outPath [] = [] \<and> main_files_cats outPath [] = []"
proof -
  have total: "\<exists>rs'. main_rulesets clock technologies = Inr rs'"
    using process_technologies_ok [OF groups_present_Nil, of clock technologies]
    unfolding main_rulesets_def by (elim exE conjE) (rule exI)
  have total_cats: "\<exists>rs'. main_rulesets_cats categories clock technologies = Inr rs'"
    using process_technologies_cats_ok [OF groups_present_Nil, of categories clock technologies]
    unfolding main_rulesets_cats_def by (elim exE conjE) (rule exI)
  have total_bw: "\<exists>rs'. main_rulesets_bw clock technologies_bw = Inr rs'"
    using process_technologies_bw_ok [OF groups_present_Nil, of clock technologies_bw]
    unfolding main_rulesets_bw_def by (elim exE conjE) (rule exI)
  show ?thesis
    apply (intro conjI)
    subgoal by (rule bucket_cats_filter)
    subgoal by (rule bucket_cats_cats_filter)
    subgoal by (rule bucket_cats_bw_filter)
    subgoal
      by (simp add: main_rulesets_def process_technologies_drop bucket_cats_unresolved
          list_all_iff)
    subgoal
      by (simp add: main_rulesets_cats_def process_technologies_cats_drop
          bucket_cats_cats_unresolved list_all_iff)
    subgoal
      by (simp add: main_rulesets_bw_def process_technologies_bw_drop
          bucket_cats_bw_unresolved list_all_iff)
    subgoal by (rule total)
    subgoal by (rule total_cats)
    subgoal by (rule total_bw)
    subgoal by (simp add: main_rulesets_def process_technologies_unresolved list_all_iff)
    subgoal
      by (simp add: main_rulesets_cats_def process_technologies_cats_unresolved list_all_iff)
    subgoal by (simp add: main_rulesets_bw_def process_technologies_bw_unresolved list_all_iff)
    subgoal by (simp add: main_files_def)
    subgoal by (simp add: main_files_cats_def)
    done
qed

theorem unresolved_categories_skipped_witness:
  "bucket_cats (\<lambda>n. ''t'') (createRule ''Ghost'' unresolved_example) [''999'', ''2''] [] = Inr []
   \<and> main_rulesets (\<lambda>n. ''t'') [(''Example'', fan_out_example), (''Ghost'', unresolved_example)] =
       main_rulesets (\<lambda>n. ''t'') [(''Example'', fan_out_example)]
   \<and> main_rulesets (\<lambda>n. ''t'') [(''Ghost'', unresolved_example)] = Inr []
   \<and> main_rulesets_cats categories_example (\<lambda>n. ''t'') [(''Ghost'', unresolved_example)] = Inr []
   \<and> main_rulesets_bw (\<lambda>n. ''t'') [(''Ghost'', unresolved_example_bw)] = Inr []"
proof -
  have u: "\<forall>c\<in>set (Cats unresolved_example). map_of categoryMappings c = None"
    by (simp add: unresolved_example_def categoryMappings_def)
  have uc: "\<forall>c\<in>set (Cats unresolved_example). map_of categories_example c = None"
    by (simp add: unresolved_example_def categories_example_def)
  have ub: "\<forall>c\<in>set (Categories unresolved_example_bw). map_of categoryMappings_bw c = None"
    by (simp add: unresolved_example_bw_def categoryMappings_bw_def)
  have c: "Cats unresolved_example = [''999'', ''2'']" by (simp add: unresolved_example_def)
  note T = unresolved_categories_skipped [where clock = "\<lambda>n. ''t''"
      and rule = "createRule ''Ghost'' unresolved_example" and rs = "[]"
      and details = unresolved_example and before = "[(''Example'', fan_out_example)]"
      and after = "[]" and name = "''Ghost''" and categories = categories_example
      and details_bw = unresolved_example_bw and before_bw = "[]" and after_bw = "[]"
      and technologies = "[(''Ghost'', unresolved_example)]"
      and technologies_bw = "[(''Ghost'', unresolved_example_bw)]" and cats = "[]"
      and cats_bw = "[]" and outPath = "[]"]
  have e: "main_rulesets_bw (\<lambda>n. ''t'') [] = Inr []" by (simp add: main_rulesets_bw_def)
  from T u uc ub e
  have "bucket_cats (\<lambda>n. ''t'') (createRule ''Ghost'' unresolved_example)
          (Cats unresolved_example) [] = Inr []
   \<and> main_rulesets (\<lambda>n. ''t'') [(''Example'', fan_out_example), (''Ghost'', unresolved_example)] =
       main_rulesets (\<lambda>n. ''t'') [(''Example'', fan_out_example)]
   \<and> main_rulesets (\<lambda>n. ''t'') [(''Ghost'', unresolved_example)] = Inr []
   \<and> main_rulesets_cats categories_example (\<lambda>n. ''t'') [(''Ghost'', unresolved_example)] = Inr []
   \<and> main_rulesets_bw (\<lambda>n. ''t'') [(''Ghost'', unresolved_example_bw)] = Inr []"
    by simp
  then show ?thesis
    by (simp only: c)
qed

section \<open>The confidence of the signatures\<close>

lemma meta_entry_confidence: "list_all (\<lambda>m. meta_Confidence m = 10) (meta_entry e)"
proof -
  obtain k v where "e = (k, v)" by (cases e)
  then show ?thesis by (cases v) simp_all
qed

lemma meta_tags_confidence: "list_all (\<lambda>m. meta_Confidence m = 10) (meta_tags meta)"
proof (cases meta)
  case (GoMap entries)
  have "list_all (\<lambda>m. meta_Confidence m = 10) (concat (map meta_entry entries))"
    by (induction entries) (simp_all add: meta_entry_confidence del: meta_entry.simps)
  with GoMap show ?thesis by simp
next
  case (GoMapString entries)
  then show ?thesis by (simp add: list_all_iff)
qed simp_all

lemma createRule_confidence: "confidence_10 (createRule name details)"
  using meta_tags_confidence [of "Meta details"]
  by (auto simp: confidence_10_def createRule_def list_all_iff
      header_field_def content_sig_def attr_sig_def url_sig_def)

lemma createRule_cats_confidence: "confidence_10 (createRule_cats name details)"
  using meta_tags_confidence [of "Meta details"]
  by (auto simp: confidence_10_def createRule_cats_def list_all_iff
      header_field_def content_sig_def attr_sig_def url_sig_def)

lemma createRule_bw_confidence: "confidence_10 (createRule_bw name details)"
  by (auto simp: confidence_10_def createRule_bw_def list_all_iff header_field_def url_sig_def)

lemma createFaviconRule_confidence: "confidence_10 (createFaviconRule ident md5hash description)"
  by (simp add: confidence_10_def createFaviconRule_def)

lemma createDetectionRuleFromModSecurity_confidence:
  "confidence_10 (createDetectionRuleFromModSecurity modsecRule)"
  by (simp add: confidence_10_def createDetectionRuleFromModSecurity_def)

lemma favicon_scan_confidence:
  "list_all confidence_10 rules \<Longrightarrow> list_all confidence_10 (favicon_scan lines rules)"
  by (induction lines arbitrary: rules)
    (simp_all add: createFaviconRule_confidence Let_def split: option.split)

lemma modsec_scan_confidence:
  "list_all confidence_10 rules \<Longrightarrow> list_all confidence_10 (modsec_scan lines rules)"
  by (induction lines arbitrary: rules)
    (simp_all add: createDetectionRuleFromModSecurity_confidence Let_def)

lemma emitted_rules_Nil: "emitted_rules [] = []"
  by (simp add: emitted_rules_def)

text \<open>
  C7. Every signature of every rule that a converter builds has the confidence 10: this
  holds for the rules of the five rule constructors, and for every rule of every ruleset
  at the end of a run of each converter.
\<close>

theorem confidence_always_10:
  "confidence_10 (createRule name details)
   \<and> confidence_10 (createRule_cats name details)
   \<and> confidence_10 (createRule_bw name details_bw)
   \<and> confidence_10 (createFaviconRule ident md5hash description)
   \<and> confidence_10 (createDetectionRuleFromModSecurity modsecRule)
   \<and> (\<exists>rs. main_rulesets clock technologies = Inr rs \<and> list_all confidence_10 (emitted_rules rs))
   \<and> (\<exists>rs. main_rulesets_cats categories clock technologies = Inr rs
          \<and> list_all confidence_10 (emitted_rules rs))
   \<and> (\<exists>rs. main_rulesets_bw clock technologies_bw = Inr rs
          \<and> list_all confidence_10 (emitted_rules rs))
   \<and> list_all confidence_10 (ruleset_rules (favicon_main now lines))
   \<and> list_all confidence_10 (ruleset_rules (modsec_main now lines))"
proof -
  have static: "\<exists>rs. main_rulesets clock technologies = Inr rs
      \<and> list_all confidence_10 (emitted_rules rs)"
  proof -
    from process_technologies_ok [OF groups_present_Nil, of clock technologies]
    obtain rs where "process_technologies clock technologies [] = Inr rs"
      and "set (emitted_rules rs)
             \<subseteq> set (emitted_rules []) \<union> (\<lambda>t. createRule (fst t) (snd t)) ` set technologies"
      by (elim exE conjE)
    then show ?thesis
      by (auto simp: main_rulesets_def list_all_iff emitted_rules_Nil createRule_confidence)
  qed
  have cats: "\<exists>rs. main_rulesets_cats categories clock technologies = Inr rs
      \<and> list_all confidence_10 (emitted_rules rs)"
  proof -
    from process_technologies_cats_ok [OF groups_present_Nil, of categories clock technologies]
    obtain rs where "process_technologies_cats categories clock technologies [] = Inr rs"
      and "set (emitted_rules rs)
             \<subseteq> set (emitted_rules []) \<union> (\<lambda>t. createRule_cats (fst t) (snd t)) ` set technologies"
      by (elim exE conjE)
    then show ?thesis
      by (auto simp: main_rulesets_cats_def list_all_iff emitted_rules_Nil
          createRule_cats_confidence)
  qed
  have bw: "\<exists>rs. main_rulesets_bw clock technologies_bw = Inr rs
      \<and> list_all confidence_10 (emitted_rules rs)"
  proof -
    from process_technologies_bw_ok [OF groups_present_Nil, of clock technologies_bw]
    obtain rs where "process_technologies_bw clock technologies_bw [] = Inr rs"
      and "set (emitted_rules rs)
             \<subseteq> set (emitted_rules []) \<union> (\<lambda>t. createRule_bw (fst t) (snd t)) ` set technologies_bw"
      by (elim exE conjE)
    then show ?thesis
      by (auto simp: main_rulesets_bw_def list_all_iff emitted_rules_Nil createRule_bw_confidence)
  qed
  have favicon: "list_all confidence_10 (ruleset_rules (favicon_main now lines))"
    by (cases lines) (simp_all add: ruleset_rules_def favicon_main_def favicon_scan_confidence)
  have modsec: "list_all confidence_10 (ruleset_rules (modsec_main now lines))"
    by (simp add: ruleset_rules_def modsec_main_def modsec_scan_confidence)
  show ?thesis
    apply (intro conjI)
    subgoal by (rule createRule_confidence)
    subgoal by (rule createRule_cats_confidence)
    subgoal by (rule createRule_bw_confidence)
    subgoal by (rule createFaviconRule_confidence)
    subgoal by (rule createDetectionRuleFromModSecurity_confidence)
    subgoal by (rule static)
    subgoal by (rule cats)
    subgoal by (rule bw)
    subgoal by (rule favicon)
    subgoal by (rule modsec)
    done
qed

theorem confidence_always_10_witness:
  "map url_Confidence (URLPatterns (createRule ''Example'' website_only)) = [10]
   \<and> map pc_Confidence (PageContentPatterns (createRule_cats ''Example'' website_only)) = [10, 10, 10]
   \<and> map meta_Confidence (MetaTags (createRule ''Example'' meta_example)) = [10, 10]
   \<and> map hdr_Confidence (HTTPHeaderFields (createRule_bw ''Example'' builtwith_example)) = [10]
   \<and> map pc_Confidence (PageContentPatterns (createFaviconRule ''1'' ''abc123'' ''Drupal'')) = [10]"
proof -
  note T = confidence_always_10 [where name = "''Example''" and details = website_only]
  have lens: "length (URLPatterns (createRule ''Example'' website_only)) = 1"
    "length (PageContentPatterns (createRule_cats ''Example'' website_only)) = 3"
    "length (MetaTags (createRule ''Example'' meta_example)) = 2"
    "length (HTTPHeaderFields (createRule_bw ''Example'' builtwith_example)) = 1"
    "length (PageContentPatterns (createFaviconRule ''1'' ''abc123'' ''Drupal'')) = 1"
    by (simp_all add: createRule_def createRule_cats_def createRule_bw_def createFaviconRule_def
        website_only_def meta_example_def builtwith_example_def)
  have all10: "list_all (\<lambda>x. f x = c) xs \<Longrightarrow> map f xs = replicate (length xs) c" for f :: "'a \<Rightarrow> 'b" and c xs
    by (induction xs) simp_all
  note U = confidence_always_10 [where name = "''Example''" and details = meta_example
      and details_bw = builtwith_example and ident = "''1''" and md5hash = "''abc123''"
      and description = "''Drupal''"]
  have a: "confidence_10 (createRule ''Example'' website_only)"
    by (rule T [THEN conjunct1])
  have b: "confidence_10 (createRule_cats ''Example'' website_only)"
    by (rule T [THEN conjunct2, THEN conjunct1])
  have c: "confidence_10 (createRule ''Example'' meta_example)"
    by (rule U [THEN conjunct1])
  have d: "confidence_10 (createRule_bw ''Example'' builtwith_example)"
    by (rule U [THEN conjunct2, THEN conjunct2, THEN conjunct1])
  have e: "confidence_10 (createFaviconRule ''1'' ''abc123'' ''Drupal'')"
    by (rule U [THEN conjunct2, THEN conjunct2, THEN conjunct2, THEN conjunct1])
  from a b c d e show ?thesis
    unfolding confidence_10_def
    by (auto dest!: all10 simp: lens numeral_3_eq_3 numeral_2_eq_2)
qed

section \<open>Output file names\<close>









section \<open>Properties of the ModSecurity converter\<close>

lemma first_match_None_iff:
  "first_match m s = None \<longleftrightarrow> (\<forall>k\<le>length s. m (drop k s) = None)"
proof (induction s)
  case Nil
  show ?case by simp
next
  case (Cons c cs)
  have "(\<forall>k\<le>length (c # cs). m (drop k (c # cs)) = None)
        \<longleftrightarrow> m (c # cs) = None \<and> (\<forall>k\<le>length cs. m (drop k cs) = None)"
  proof
    assume a: "\<forall>k\<le>length (c # cs). m (drop k (c # cs)) = None"
    have "m (c # cs) = None" using a [rule_format, of 0] by simp
    moreover have "m (drop k cs) = None" if "k \<le> length cs" for k
      using a [rule_format, of "Suc k"] that by simp
    ultimately show "m (c # cs) = None \<and> (\<forall>k\<le>length cs. m (drop k cs) = None)" by simp
  next
    assume a: "m (c # cs) = None \<and> (\<forall>k\<le>length cs. m (drop k cs) = None)"
    show "\<forall>k\<le>length (c # cs). m (drop k (c # cs)) = None"
    proof (intro allI impI)
      fix k assume "k \<le> length (c # cs)"
      then show "m (drop k (c # cs)) = None" using a by (cases k) simp_all
    qed
  qed
  with Cons.IH show ?case by (simp split: option.split)
qed

lemma strip_prefix_Some_iff: "strip_prefix p s = Some r \<longleftrightarrow> s = p @ r"
proof
  assume "strip_prefix p s = Some r"
  then have "take (length p) s = p" "r = drop (length p) s"
    by (auto simp: strip_prefix_def HasPrefix_def split: if_splits)
  then show "s = p @ r" by (metis append_take_drop_id)
next
  assume "s = p @ r"
  then show "strip_prefix p s = Some r" by (simp add: strip_prefix_def HasPrefix_def)
qed

lemma quoted_at_Some_iff:
  "quoted_at lit q s = Some v \<longleftrightarrow> (\<exists>rest. s = lit @ v @ q # rest \<and> v \<noteq> [] \<and> q \<notin> set v)"
proof
  assume a: "quoted_at lit q s = Some v"
  then obtain r where r: "strip_prefix lit s = Some r"
    by (cases "strip_prefix lit s") (simp_all add: quoted_at_def)
  with a have v: "v = takeWhile (\<lambda>c. c \<noteq> q) r" "v \<noteq> []" "drop (length v) r \<noteq> []"
    by (auto simp: quoted_at_def Let_def split: if_splits)
  have split: "r = v @ dropWhile (\<lambda>c. c \<noteq> q) r" using v(1) by simp
  then have "drop (length v) r = dropWhile (\<lambda>c. c \<noteq> q) r"
    by (metis append_eq_conv_conj)
  with v(3) have ne: "dropWhile (\<lambda>c. c \<noteq> q) r \<noteq> []" by simp
  then have "hd (dropWhile (\<lambda>c. c \<noteq> q) r) = q" using hd_dropWhile [of "\<lambda>c. c \<noteq> q" r] by simp
  with ne obtain rest where "dropWhile (\<lambda>c. c \<noteq> q) r = q # rest"
    by (cases "dropWhile (\<lambda>c. c \<noteq> q) r") auto
  with split have "r = v @ q # rest" by simp
  moreover have "q \<notin> set v" using v(1) by (auto dest: set_takeWhileD)
  ultimately show "\<exists>rest. s = lit @ v @ q # rest \<and> v \<noteq> [] \<and> q \<notin> set v"
    using r v(2) by (auto simp: strip_prefix_Some_iff)
next
  assume "\<exists>rest. s = lit @ v @ q # rest \<and> v \<noteq> [] \<and> q \<notin> set v"
  then obtain rest where s: "s = lit @ v @ q # rest" and v: "v \<noteq> []" "q \<notin> set v" by blast
  have r: "strip_prefix lit s = Some (v @ q # rest)" using s by (simp add: strip_prefix_Some_iff)
  have "takeWhile (\<lambda>c. c \<noteq> q) (v @ q # rest) = v"
    using v(2) by (induction v) auto
  then show "quoted_at lit q s = Some v"
    using r v(1) by (simp add: quoted_at_def)
qed

lemma first_match_quoted_None_iff:
  "first_match (quoted_at lit q) s = None \<longleftrightarrow>
   \<not> (\<exists>pre v post. s = pre @ lit @ v @ q # post \<and> v \<noteq> [] \<and> q \<notin> set v)"
proof
  assume a: "first_match (quoted_at lit q) s = None"
  show "\<not> (\<exists>pre v post. s = pre @ lit @ v @ q # post \<and> v \<noteq> [] \<and> q \<notin> set v)"
  proof
    assume "\<exists>pre v post. s = pre @ lit @ v @ q # post \<and> v \<noteq> [] \<and> q \<notin> set v"
    then obtain pre v post where s: "s = pre @ lit @ v @ q # post" and v: "v \<noteq> []" "q \<notin> set v"
      by blast
    have "quoted_at lit q (drop (length pre) s) = Some v"
      using s v by (simp add: quoted_at_Some_iff)
    moreover have "length pre \<le> length s" using s by simp
    ultimately show False using a by (simp add: first_match_None_iff)
  qed
next
  assume a: "\<not> (\<exists>pre v post. s = pre @ lit @ v @ q # post \<and> v \<noteq> [] \<and> q \<notin> set v)"
  have "quoted_at lit q (drop k s) = None" for k
  proof (rule ccontr)
    assume "quoted_at lit q (drop k s) \<noteq> None"
    then obtain v where "quoted_at lit q (drop k s) = Some v" by auto
    then obtain rest where "drop k s = lit @ v @ q # rest" "v \<noteq> []" "q \<notin> set v"
      by (auto simp: quoted_at_Some_iff)
    then have "s = take k s @ lit @ v @ q # rest \<and> v \<noteq> [] \<and> q \<notin> set v"
      by (metis append_take_drop_id)
    with a show False by blast
  qed
  then show "first_match (quoted_at lit q) s = None" by (simp add: first_match_None_iff)
qed

lemma modsec_scan_acc: "modsec_scan lines rules = rules @ modsec_scan lines []"
proof (induction lines arbitrary: rules)
  case Nil
  show ?case by simp
next
  case (Cons line lines)
  show ?case
    using Cons.IH [of rules]
      Cons.IH [of "rules @ [createDetectionRuleFromModSecurity (parseModSecurityRule line)]"]
      Cons.IH [of "[createDetectionRuleFromModSecurity (parseModSecurityRule line)]"]
    by (simp add: Let_def)
qed

lemma modsec_scan_append:
  "modsec_scan (before @ after) rules = modsec_scan after (modsec_scan before rules)"
  by (induction before arbitrary: rules) (simp_all add: Let_def)

lemma modsec_scan_line:
  "modsec_scan (before @ line # after) [] =
     modsec_scan before [] @ modsec_scan [line] [] @ modsec_scan after []"
proof -
  have "modsec_scan (before @ line # after) [] =
          modsec_scan after (modsec_scan [line] (modsec_scan before []))"
    using modsec_scan_append [of before "[line] @ after" "[]"]
      modsec_scan_append [of "[line]" after "modsec_scan before []"] by simp
  also have "\<dots> = modsec_scan [line] (modsec_scan before []) @ modsec_scan after []"
    by (rule modsec_scan_acc)
  also have "modsec_scan [line] (modsec_scan before []) =
               modsec_scan before [] @ modsec_scan [line] []"
    by (rule modsec_scan_acc)
  finally show ?thesis by simp
qed

lemma modsec_scan_kept:
  assumes "\<not> HasPrefix line ''#''" and "userAgentRe line = Some ua" and "ua \<noteq> []"
  shows "modsec_scan [line] [] =
     [\<lparr>RuleName = ''detect_modsec_rule_'' @ group_or_empty (idRe line),
       ObjectName = ''ModSecurity Rule '' @ group_or_empty (idRe line),
       Implies = [],
       HTTPHeaderFields = [\<lparr>hdr_Key = ''User-Agent'', hdr_Value = [ua], hdr_Confidence = 10\<rparr>],
       MetaTags = [], PageContentPatterns = [], SSLSignatures = [], URLPatterns = []\<rparr>]"
proof -
  have "line \<noteq> []" using assms(2,3)
    by (auto simp: userAgentRe_def quoted_at_def strip_prefix_def HasPrefix_def)
  with assms show ?thesis
    by (simp add: parseModSecurityRule_def createDetectionRuleFromModSecurity_def
        group_or_empty_def)
qed

lemma userAgentRe_nonempty: "userAgentRe line = Some ua \<Longrightarrow> ua \<noteq> []"
proof -
  have "first_match m s = Some v \<Longrightarrow> \<exists>k. m (drop k s) = Some v" for m :: "string \<Rightarrow> string option" and s v
  proof (induction s)
    case Nil
    then show ?case by simp
  next
    case (Cons c cs)
    show ?case
    proof (cases "m (c # cs)")
      case None
      with Cons obtain k where "m (drop k cs) = Some v" by auto
      then have "m (drop (Suc k) (c # cs)) = Some v" by simp
      then show ?thesis by blast
    next
      case (Some r)
      with Cons.prems have "m (drop 0 (c # cs)) = Some v" by simp
      then show ?thesis by blast
    qed
  qed
  moreover assume "userAgentRe line = Some ua"
  ultimately obtain k where
    "quoted_at (''REQUEST_HEADERS:User-Agent '' @ [CHR 0x22]) (CHR 0x22) (drop k line) = Some ua"
    unfolding userAgentRe_def by blast
  then show ?thesis by (auto simp: quoted_at_Some_iff)
qed

lemma modsec_scan_dropped:
  "userAgentRe line = None \<Longrightarrow> modsec_scan [line] [] = []"
  by (simp add: parseModSecurityRule_def group_or_empty_def)

lemmas modsec_eval =
  userAgentRe_def idRe_def quoted_at_def digits_at_def strip_prefix_def HasPrefix_def is_digit_def

text \<open>
  C3. A line that does not begin with \<open>#\<close>, in which the leftmost match of
  \<open>id:(\d+)\<close> carries 12345 and the leftmost match of
  \<open>REQUEST_HEADERS:User-Agent "([^"]+)"\<close> carries BadBot, gives exactly one rule,
  named \<open>detect_modsec_rule_12345\<close>, whose only signature is the header field
  \<open>User-Agent\<close> with the value list \<open>["BadBot"]\<close> and the confidence 10. A line in
  which the User-Agent expression has no match gives no rule; the expression has no
  match exactly when the line has no occurrence of the literal followed by a nonempty
  run of characters other than the double quote and then a double quote.
\<close>

theorem modsec_badbot_rule:
  "(\<not> HasPrefix line ''#'' \<and> userAgentRe line = Some ''BadBot'' \<and> idRe line = Some ''12345'' \<longrightarrow>
      modsec_scan (before @ line # after) [] =
        modsec_scan before []
        @ [\<lparr>RuleName = ''detect_modsec_rule_12345'', ObjectName = ''ModSecurity Rule 12345'',
            Implies = [],
            HTTPHeaderFields =
              [\<lparr>hdr_Key = ''User-Agent'', hdr_Value = [''BadBot''], hdr_Confidence = 10\<rparr>],
            MetaTags = [], PageContentPatterns = [], SSLSignatures = [], URLPatterns = []\<rparr>]
        @ modsec_scan after [])
   \<and> (userAgentRe line = None \<longrightarrow>
        modsec_scan (before @ line # after) [] = modsec_scan before [] @ modsec_scan after [])
   \<and> (userAgentRe line = None \<longleftrightarrow>
        \<not> (\<exists>pre v post.
              line = pre @ (''REQUEST_HEADERS:User-Agent '' @ [CHR 0x22]) @ v @ CHR 0x22 # post
              \<and> v \<noteq> [] \<and> CHR 0x22 \<notin> set v))"
proof (intro conjI impI)
  assume a: "\<not> HasPrefix line ''#'' \<and> userAgentRe line = Some ''BadBot'' \<and> idRe line = Some ''12345''"
  then have "modsec_scan [line] [] =
     [\<lparr>RuleName = ''detect_modsec_rule_'' @ group_or_empty (idRe line),
       ObjectName = ''ModSecurity Rule '' @ group_or_empty (idRe line),
       Implies = [],
       HTTPHeaderFields =
         [\<lparr>hdr_Key = ''User-Agent'', hdr_Value = [''BadBot''], hdr_Confidence = 10\<rparr>],
       MetaTags = [], PageContentPatterns = [], SSLSignatures = [], URLPatterns = []\<rparr>]"
    by (intro modsec_scan_kept) simp_all
  with a show "modsec_scan (before @ line # after) [] =
        modsec_scan before []
        @ [\<lparr>RuleName = ''detect_modsec_rule_12345'', ObjectName = ''ModSecurity Rule 12345'',
            Implies = [],
            HTTPHeaderFields =
              [\<lparr>hdr_Key = ''User-Agent'', hdr_Value = [''BadBot''], hdr_Confidence = 10\<rparr>],
            MetaTags = [], PageContentPatterns = [], SSLSignatures = [], URLPatterns = []\<rparr>]
        @ modsec_scan after []"
    by (simp add: modsec_scan_line [of before line after] group_or_empty_def
        del: modsec_scan.simps)
next
  assume "userAgentRe line = None"
  then have "modsec_scan [line] [] = []" by (rule modsec_scan_dropped)
  then show "modsec_scan (before @ line # after) [] = modsec_scan before [] @ modsec_scan after []"
    by (simp add: modsec_scan_line [of before line after] del: modsec_scan.simps)
next
  show "userAgentRe line = None \<longleftrightarrow>
        \<not> (\<exists>pre v post.
              line = pre @ (''REQUEST_HEADERS:User-Agent '' @ [CHR 0x22]) @ v @ CHR 0x22 # post
              \<and> v \<noteq> [] \<and> CHR 0x22 \<notin> set v)"
    unfolding userAgentRe_def by (rule first_match_quoted_None_iff)
qed

theorem modsec_badbot_rule_witness:
  "modsec_scan [badbot_line] [] =
     [\<lparr>RuleName = ''detect_modsec_rule_12345'', ObjectName = ''ModSecurity Rule 12345'',
       Implies = [],
       HTTPHeaderFields =
         [\<lparr>hdr_Key = ''User-Agent'', hdr_Value = [''BadBot''], hdr_Confidence = 10\<rparr>],
       MetaTags = [], PageContentPatterns = [], SSLSignatures = [], URLPatterns = []\<rparr>]
   \<and> modsec_scan [no_ua_line] [] = []"
proof -
  have h: "\<not> HasPrefix badbot_line ''#''" by (simp add: HasPrefix_def badbot_line_def)
  have ua: "userAgentRe badbot_line = Some ''BadBot''" by (simp add: modsec_eval badbot_line_def)
  have ident: "idRe badbot_line = Some ''12345''" by (simp add: modsec_eval badbot_line_def)
  have none: "userAgentRe no_ua_line = None" by (simp add: modsec_eval no_ua_line_def)
  show ?thesis
    using modsec_badbot_rule [of badbot_line "[]" "[]"] modsec_badbot_rule [of no_ua_line "[]" "[]"]
      h ua ident none
    by (simp del: modsec_scan.simps(2))
qed

theorem modsec_badbot_counterexample:
  "Contains badbot_long_id_line ''id:12345''
   \<and> Contains badbot_long_id_line (''REQUEST_HEADERS:User-Agent '' @ [CHR 0x22] @ ''BadBot'' @ [CHR 0x22])
   \<and> modsec_scan [badbot_long_id_line] [] =
     [\<lparr>RuleName = ''detect_modsec_rule_123456'', ObjectName = ''ModSecurity Rule 123456'',
       Implies = [],
       HTTPHeaderFields =
         [\<lparr>hdr_Key = ''User-Agent'', hdr_Value = [''BadBot''], hdr_Confidence = 10\<rparr>],
       MetaTags = [], PageContentPatterns = [], SSLSignatures = [], URLPatterns = []\<rparr>]
   \<and> Contains badbot_comment_line ''id:12345''
   \<and> Contains badbot_comment_line (''REQUEST_HEADERS:User-Agent '' @ [CHR 0x22] @ ''BadBot'' @ [CHR 0x22])
   \<and> modsec_scan [badbot_comment_line] [] = []"
proof -
  have h: "\<not> HasPrefix badbot_long_id_line ''#''" by (simp add: HasPrefix_def badbot_long_id_line_def)
  have ua: "userAgentRe badbot_long_id_line = Some ''BadBot''"
    by (simp add: modsec_eval badbot_long_id_line_def)
  have ident: "idRe badbot_long_id_line = Some ''123456''"
    by (simp add: modsec_eval badbot_long_id_line_def)
  have r: "modsec_scan [badbot_long_id_line] [] =
     [\<lparr>RuleName = ''detect_modsec_rule_123456'', ObjectName = ''ModSecurity Rule 123456'',
       Implies = [],
       HTTPHeaderFields =
         [\<lparr>hdr_Key = ''User-Agent'', hdr_Value = [''BadBot''], hdr_Confidence = 10\<rparr>],
       MetaTags = [], PageContentPatterns = [], SSLSignatures = [], URLPatterns = []\<rparr>]"
    using modsec_scan_kept [OF h ua] by (simp add: ident group_or_empty_def del: modsec_scan.simps)
  have c: "modsec_scan [badbot_comment_line] [] = []"
    by (simp add: HasPrefix_def badbot_comment_line_def)
  have s1: "Contains badbot_long_id_line ''id:12345''"
    "Contains badbot_long_id_line (''REQUEST_HEADERS:User-Agent '' @ [CHR 0x22] @ ''BadBot'' @ [CHR 0x22])"
    by (simp_all add: HasPrefix_def badbot_long_id_line_def)
  have s2: "Contains badbot_comment_line ''id:12345''"
    "Contains badbot_comment_line (''REQUEST_HEADERS:User-Agent '' @ [CHR 0x22] @ ''BadBot'' @ [CHR 0x22])"
    by (simp_all add: HasPrefix_def badbot_comment_line_def)
  from r c s1 s2 show ?thesis by (intro conjI)
qed

text \<open>
  C9. A line that does not begin with \<open>#\<close>, in which the User-Agent expression
  matches and \<open>id:(\d+)\<close> does not, gives exactly one rule: its name is
  \<open>detect_modsec_rule_\<close>, its object name is \<open>ModSecurity Rule\<close> followed by a
  space, and its only signature is the header field of the User-Agent. Among the lines
  that do not begin with \<open>#\<close>, a line gives a rule exactly when the User-Agent
  expression matches.
\<close>

theorem modsec_rule_without_id:
  assumes "\<not> HasPrefix line ''#''"
  shows "(userAgentRe line = Some ua \<and> idRe line = None \<longrightarrow>
      modsec_scan (before @ line # after) [] =
        modsec_scan before []
        @ [\<lparr>RuleName = ''detect_modsec_rule_'', ObjectName = ''ModSecurity Rule '',
            Implies = [],
            HTTPHeaderFields =
              [\<lparr>hdr_Key = ''User-Agent'', hdr_Value = [ua], hdr_Confidence = 10\<rparr>],
            MetaTags = [], PageContentPatterns = [], SSLSignatures = [], URLPatterns = []\<rparr>]
        @ modsec_scan after [])
    \<and> (modsec_scan [line] [] = [] \<longleftrightarrow> userAgentRe line = None)"
proof (intro conjI impI)
  assume a: "userAgentRe line = Some ua \<and> idRe line = None"
  then have "ua \<noteq> []" by (auto dest: userAgentRe_nonempty)
  with a assms have "modsec_scan [line] [] =
     [\<lparr>RuleName = ''detect_modsec_rule_'' @ group_or_empty (idRe line),
       ObjectName = ''ModSecurity Rule '' @ group_or_empty (idRe line),
       Implies = [],
       HTTPHeaderFields = [\<lparr>hdr_Key = ''User-Agent'', hdr_Value = [ua], hdr_Confidence = 10\<rparr>],
       MetaTags = [], PageContentPatterns = [], SSLSignatures = [], URLPatterns = []\<rparr>]"
    by (intro modsec_scan_kept) simp_all
  with a show "modsec_scan (before @ line # after) [] =
        modsec_scan before []
        @ [\<lparr>RuleName = ''detect_modsec_rule_'', ObjectName = ''ModSecurity Rule '',
            Implies = [],
            HTTPHeaderFields =
              [\<lparr>hdr_Key = ''User-Agent'', hdr_Value = [ua], hdr_Confidence = 10\<rparr>],
            MetaTags = [], PageContentPatterns = [], SSLSignatures = [], URLPatterns = []\<rparr>]
        @ modsec_scan after []"
    by (simp add: modsec_scan_line [of before line after] group_or_empty_def
        del: modsec_scan.simps)
next
  show "modsec_scan [line] [] = [] \<longleftrightarrow> userAgentRe line = None"
  proof (cases "userAgentRe line")
    case None
    then show ?thesis by (simp add: modsec_scan_dropped del: modsec_scan.simps)
  next
    case (Some ua)
    then have "ua \<noteq> []" by (rule userAgentRe_nonempty)
    with assms Some show ?thesis
      using modsec_scan_kept [of line ua] by (simp del: modsec_scan.simps)
  qed
qed

theorem modsec_rule_without_id_witness:
  "modsec_scan [no_id_line] [] =
     [\<lparr>RuleName = ''detect_modsec_rule_'', ObjectName = ''ModSecurity Rule '',
       Implies = [],
       HTTPHeaderFields =
         [\<lparr>hdr_Key = ''User-Agent'', hdr_Value = [''BadBot''], hdr_Confidence = 10\<rparr>],
       MetaTags = [], PageContentPatterns = [], SSLSignatures = [], URLPatterns = []\<rparr>]"
proof -
  have h: "\<not> HasPrefix no_id_line ''#''" by (simp add: HasPrefix_def no_id_line_def)
  have ua: "userAgentRe no_id_line = Some ''BadBot''" by (simp add: modsec_eval no_id_line_def)
  have ident: "idRe no_id_line = None" by (simp add: modsec_eval no_id_line_def)
  show ?thesis
    using modsec_rule_without_id [OF h, of "''BadBot''" "[]" "[]"] ua ident
    by (simp del: modsec_scan.simps(2))
qed

theorem modsec_rule_without_id_counterexample:
  "userAgentRe no_id_comment_line = Some ''BadBot''
   \<and> idRe no_id_comment_line = None
   \<and> modsec_scan [no_id_comment_line] [] = []"
  by (simp add: modsec_eval no_id_comment_line_def)


end
